theory Spec2Isabelle
  imports Main "HOL-Library.AList" "HOL-Library.Char_ord" "HOL-Library.List_Lexorder"
begin

section \<open>Data model (backend/src/types/index.ts)\<close>

text \<open>
  Strings are \<open>string\<close>; score points are JavaScript numbers that the trees hold as
  integers, modelled as \<open>int\<close>. A \<open>Record<string, number>\<close> is an association list in
  the order \<open>Object.keys\<close> enumerates it (insertion order for keys that are not array
  indices); a \<open>string | null\<close> is a \<open>string option\<close> with \<open>None\<close> for \<open>null\<close>.
  Reading a key of a \<open>Record\<close> is \<open>map_of\<close>. This is what the engine computes when
  no outcome key is a name that every object inherits (\<open>objectPrototypeNames\<close> below,
  for which a property read finds the inherited value) and when every sum of points stays
  within the integers that a double holds exactly (up to \<open>2 ^ 53\<close> in absolute value).
  The optional \<open>metadata\<close> of a tree is read nowhere and left out.
  Record fields carry a prefix where several interfaces share a field name.
\<close>

record TreeOption =
  o_id :: string
  o_label :: string
  o_nextQuestionId :: "string option"
  o_scores :: "(string \<times> int) list"

record Question =
  q_id :: string
  q_text :: string
  q_options :: "TreeOption list"

record Result =
  r_name :: string
  r_reasoning :: string
  r_tradeoffs :: "string list"
  r_whenToReconsider :: string
  r_bestFor :: string

record DecisionTree =
  t_id :: string
  t_title :: string
  t_description :: string
  t_version :: string
  questions :: "Question list"
  results :: "(string \<times> Result) list"

record Answer =
  questionId :: string
  optionId :: string

datatype Confidence = High | Medium | Low

record RecommendationResult =
  rr_recommendation :: string
  rr_scores :: "(string \<times> int) list"
  rr_result :: Result
  rr_answers :: "Answer list"
  rr_tieBreaker :: "string option"
  rr_confidence :: Confidence

datatype ErrorCode =
    TREE_NOT_FOUND | TREE_INVALID
  | QUESTION_NOT_FOUND | INVALID_QUESTION_ID
  | OPTION_NOT_FOUND | INVALID_OPTION
  | MISSING_ANSWERS | INVALID_ANSWER_PATH
  | SAVE_FAILED | SLUG_COLLISION
  | NO_RECOMMENDATION | RESULT_NOT_FOUND
  | VALIDATION_ERROR | INTERNAL_ERROR | RATE_LIMIT_EXCEEDED

text \<open>
  A thrown \<open>Error\<close>: its message, and the \<open>code\<close> property that \<open>createError\<close> sets
  (\<open>None\<close> on a plain \<open>new Error(message)\<close>).
\<close>

record JsError =
  message :: string
  code :: "ErrorCode option"

section \<open>String helpers of the JavaScript runtime\<close>

text \<open>Decimal rendering of a non-negative integer inside a template literal.\<close>

definition digit :: "nat \<Rightarrow> char" where
  "digit d = ''0123456789'' ! (d mod 10)"

function show_nat :: "nat \<Rightarrow> string" where
  "show_nat n = (if n < 10 then [digit n] else show_nat (n div 10) @ [digit n])"
  by pat_completeness auto
termination
  by (relation "measure (\<lambda>n. n)") auto

declare show_nat.simps [simp del]

text \<open>\<open>Array.prototype.join\<close>.\<close>

fun join :: "string \<Rightarrow> string list \<Rightarrow> string" where
  "join sep [] = []"
| "join sep [x] = x"
| "join sep (x # y # ys) = x @ sep @ join sep (y # ys)"

text \<open>A \<open>string | null\<close> inside a template literal.\<close>

definition show_nullable :: "string option \<Rightarrow> string" where
  "show_nullable s = (case s of None \<Rightarrow> ''null'' | Some x \<Rightarrow> x)"

section \<open>RecommendationEngine (backend/src/services/RecommendationEngine.ts)\<close>

definition createError :: "ErrorCode \<Rightarrow> string \<Rightarrow> JsError" where
  "createError c msg = \<lparr>message = msg, code = Some c\<rparr>"

definition plainError :: "string \<Rightarrow> JsError" where
  "plainError msg = \<lparr>message = msg, code = None\<rparr>"

text \<open>
  \<open>new Map(tree.questions.map(q => [q.id, q]))\<close>: entries are set in list order, so a
  later question with the same id replaces an earlier one.
\<close>

definition questionMap :: "DecisionTree \<Rightarrow> (string \<rightharpoonup> Question)" where
  "questionMap tree = fold (\<lambda>q m. m(q_id q \<mapsto> q)) (questions tree) Map.empty"

text \<open>
  \<open>tree.questions[0]?.id || null\<close>: no first question, or an empty (falsy) id, gives
  \<open>null\<close>.
\<close>

definition entryQuestionId :: "DecisionTree \<Rightarrow> string option" where
  "entryQuestionId tree =
     (case questions tree of
        [] \<Rightarrow> None
      | q # _ \<Rightarrow> (if q_id q = [] then None else Some (q_id q)))"

text \<open>
  The \<open>for\<close> loop of \<open>validateAnswerPath\<close> from position \<open>i\<close> on; it returns the value
  of \<open>expectedQuestionId\<close> when the loop is left (by \<open>break\<close> or at the end of the
  list), or the error thrown inside it.
\<close>

fun validateLoop ::
  "(string \<rightharpoonup> Question) \<Rightarrow> string option \<Rightarrow> nat \<Rightarrow> Answer list \<Rightarrow> JsError + string option"
where
  "validateLoop qm expected i [] = Inr expected"
| "validateLoop qm expected i (answer # rest) =
     (if Some (questionId answer) \<noteq> expected then
        Inl (createError INVALID_ANSWER_PATH
              (''Expected question '' @ show_nullable expected @ '' but got '' @
               questionId answer @ '' at position '' @ show_nat i))
      else
        (case qm (questionId answer) of
           None \<Rightarrow>
             Inl (createError QUESTION_NOT_FOUND
                   (''Question '' @ questionId answer @ '' not found in tree''))
         | Some question \<Rightarrow>
             (case find (\<lambda>opt. o_id opt = optionId answer) (q_options question) of
                None \<Rightarrow>
                  Inl (createError OPTION_NOT_FOUND
                        (''Option '' @ optionId answer @ '' not found in question '' @
                         questionId answer))
              | Some option \<Rightarrow>
                  (case o_nextQuestionId option of
                     None \<Rightarrow> Inr None
                   | Some next \<Rightarrow> validateLoop qm (Some next) (Suc i) rest))))"

definition validateAnswerPath :: "DecisionTree \<Rightarrow> Answer list \<Rightarrow> JsError + unit" where
  "validateAnswerPath tree answers =
     (if length answers = 0 then
        Inl (createError MISSING_ANSWERS ''No answers provided'')
      else
        (case validateLoop (questionMap tree) (entryQuestionId tree) 0 answers of
           Inl e \<Rightarrow> Inl e
         | Inr expectedQuestionId \<Rightarrow>
             (if expectedQuestionId \<noteq> None then
                Inl (createError INVALID_ANSWER_PATH
                      ''Answer path did not reach a valid end node'')
              else Inr ())))"

text \<open>
  \<open>scores[tech] = (scores[tech] || 0) + points\<close>: an existing key keeps its place in
  the object, a new key is added after the others. This is the assignment for a key that
  the fresh object \<open>scores\<close> does not inherit (for an inherited name the read finds the
  inherited value, and the sum is a string), for a key that is not an array index (which
  \<open>Object.keys\<close> enumerates before the other keys), and for a sum that a double holds
  exactly.
\<close>

definition addPoints :: "(string \<times> int) list \<Rightarrow> string \<times> int \<Rightarrow> (string \<times> int) list" where
  "addPoints scores entry =
     (case entry of (tech, points) \<Rightarrow>
        AList.update tech
          ((case map_of scores tech of None \<Rightarrow> 0 | Some v \<Rightarrow> v) + points) scores)"

text \<open>One iteration of the \<open>for (const answer of answers)\<close> loop of \<open>calculateScores\<close>.\<close>

definition scoreAnswer ::
  "(string \<rightharpoonup> Question) \<Rightarrow> (string \<times> int) list \<Rightarrow> Answer \<Rightarrow> (string \<times> int) list"
where
  "scoreAnswer qm scores answer =
     (case qm (questionId answer) of
        None \<Rightarrow> scores
      | Some question \<Rightarrow>
          (case find (\<lambda>opt. o_id opt = optionId answer) (q_options question) of
             None \<Rightarrow> scores
           | Some option \<Rightarrow> fold (\<lambda>entry s. addPoints s entry) (o_scores option) scores))"

definition calculateScores :: "DecisionTree \<Rightarrow> Answer list \<Rightarrow> (string \<times> int) list" where
  "calculateScores tree answers =
     fold (\<lambda>answer s. scoreAnswer (questionMap tree) s answer) answers []"

text \<open>
  \<open>breakTie\<close>. \<open>tree.results[tech]\<close> is truthy exactly when the key has a descriptor.
  \<open>[...tiedTechnologies].sort()\<close> sorts strings ascending by code unit. Index 0 of an
  empty array is \<open>undefined\<close>, which reads \<open>undefined\<close> as a property key and in a
  template literal; \<open>determineWinner\<close> never passes an empty list.
\<close>

definition breakTie ::
  "string list \<Rightarrow> (string \<times> int) list \<Rightarrow> DecisionTree \<Rightarrow> string \<times> string"
where
  "breakTie tiedTechnologies unusedScores tree =
     (let withResults = filter (\<lambda>tech. map_of (results tree) tech \<noteq> None) tiedTechnologies in
      (case withResults of
         [w] \<Rightarrow> (w, ''Selected based on available documentation and guidance'')
       | _ \<Rightarrow>
           (let alphabetical = sort tiedTechnologies;
                winner = (case alphabetical of [] \<Rightarrow> ''undefined'' | w # _ \<Rightarrow> w)
            in (winner,
                ''Tied with '' @ show_nat (length tiedTechnologies) @ '' options ('' @
                join '', '' tiedTechnologies @ ''). '' @
                ''Consider reviewing your requirements - both may be equally suitable.''))))"

text \<open>
  \<open>determineWinner\<close>. \<open>Math.max(...Object.values(scores))\<close> runs over a non-empty list
  once the empty mapping has been refused.
\<close>

fun determineWinner ::
  "(string \<times> int) list \<Rightarrow> DecisionTree \<Rightarrow> JsError + (string \<times> string option)"
where
  "determineWinner [] tree =
     Inl (createError NO_RECOMMENDATION ''No technologies scored any points'')"
| "determineWinner ((k, v) # rest) tree =
     (let scores = (k, v) # rest;
          technologies = map fst scores;
          maxScore = fold max (map snd rest) v;
          winners = filter (\<lambda>tech. map_of scores tech = Some maxScore) technologies
      in (case winners of
            [w] \<Rightarrow> Inr (w, None)
          | _ \<Rightarrow>
              (case breakTie winners scores tree of
                 (winner, explanation) \<Rightarrow> Inr (winner, Some explanation))))"

text \<open>
  \<open>calculateConfidence\<close>. \<open>Math.max(...otherScores, 0)\<close> always has the argument 0.
  When \<open>winner\<close> is no key of \<open>scores\<close>, \<open>winnerScore\<close> is \<open>undefined\<close>, the difference
  is \<open>NaN\<close> and both comparisons fail.
\<close>

definition calculateConfidence :: "(string \<times> int) list \<Rightarrow> string \<Rightarrow> Confidence" where
  "calculateConfidence scores winner =
     (let scoreValues = map snd scores in
      (case map_of scores winner of
         None \<Rightarrow> Low
       | Some winnerScore \<Rightarrow>
           (let otherScores =
                  filter (\<lambda>s. s \<noteq> winnerScore \<or>
                               length (filter (\<lambda>sv. sv = winnerScore) scoreValues) > 1)
                    scoreValues;
                secondHighest = fold max otherScores 0;
                difference = winnerScore - secondHighest
            in if difference \<ge> 5 then High
               else if difference \<ge> 2 then Medium
               else Low)))"

definition calculate :: "DecisionTree \<Rightarrow> Answer list \<Rightarrow> JsError + RecommendationResult" where
  "calculate tree answers =
     (case validateAnswerPath tree answers of
        Inl e \<Rightarrow> Inl e
      | Inr _ \<Rightarrow>
          (let scores = calculateScores tree answers in
           (case determineWinner scores tree of
              Inl e \<Rightarrow> Inl e
            | Inr (winner, tieBreaker) \<Rightarrow>
                (let confidence = calculateConfidence scores winner in
                 (case map_of (results tree) winner of
                    None \<Rightarrow> Inl (plainError (''Result not found for technology: '' @ winner))
                  | Some result \<Rightarrow>
                      Inr \<lparr>rr_recommendation = winner, rr_scores = scores,
                           rr_result = result, rr_answers = answers,
                           rr_tieBreaker = tieBreaker, rr_confidence = confidence\<rparr>)))))"

section \<open>DecisionTreeValidator\<close>

text \<open>
  \<open>validate(tree: any)\<close>. The loader (\<open>DecisionTreeService.loadTrees\<close>) passes the value
  that \<open>JSON.parse\<close> returns, so an input is a JSON value, or \<open>None\<close> for \<open>undefined\<close>.
  A number is carried as the text that a template literal prints for it (both zeros print
  \<open>0\<close>, and a parsed file holds no \<open>NaN\<close>); a string is a list of code units below 256; an
  object is the list of its own properties in the order \<open>Object.keys\<close> enumerates
  them, with distinct keys. \<open>JSON.parse\<close> creates own data properties only (also for the key
  \<open>__proto__\<close>), so every object has the prototype \<open>Object.prototype\<close> and every array
  \<open>Array.prototype\<close>.
\<close>

datatype json =
    JNull
  | JBool bool
  | JNum string
  | JStr string
  | JArr "json list"
  | JObj "(string \<times> json) list"

text \<open>
  An exception is a value: a stage that can throw returns \<open>Thrown + result\<close>. The
  exceptions that these stages raise are all \<open>TypeError\<close>s (a property read on \<open>null\<close> or
  \<open>undefined\<close>, a call of a property that is no function, a \<open>for ... of\<close> over a value
  that is not iterable, the conversion of an object whose own \<open>toString\<close> property is not
  callable); the message, which depends on the JavaScript engine, is left out.

  The arrays \<open>errors\<close> and \<open>warnings\<close> are mutated by \<open>push\<close>; every stage here takes
  the lists and returns them extended. A stage that throws returns no lists: the exception
  leaves \<open>validate\<close>, whose caller never sees the arrays.
\<close>

datatype Thrown = TypeError

record ValidationIssue =
  v_type :: string
  v_code :: string
  v_message :: string
  v_location :: "string option"

type_synonym ValidationError = ValidationIssue
type_synonym ValidationWarning = ValidationIssue

record ValidationResult =
  vr_isValid :: bool
  vr_errors :: "ValidationError list"
  vr_warnings :: "ValidationWarning list"

definition mkError :: "string \<Rightarrow> string \<Rightarrow> string option \<Rightarrow> ValidationError" where
  "mkError c msg loc = \<lparr>v_type = ''error'', v_code = c, v_message = msg, v_location = loc\<rparr>"

definition mkWarning :: "string \<Rightarrow> string \<Rightarrow> string option \<Rightarrow> ValidationWarning" where
  "mkWarning c msg loc = \<lparr>v_type = ''warning'', v_code = c, v_message = msg, v_location = loc\<rparr>"

text \<open>
  \<open>String.prototype.trim\<close> on strings of code units below 256: the white space and line
  terminator code units are 9 to 13, 32 and 160.
\<close>

definition isWhiteSpace :: "char \<Rightarrow> bool" where
  "isWhiteSpace c = (of_char c \<in> {9, 10, 11, 12, 13, 32, 160 :: nat})"

definition trim :: "string \<Rightarrow> string" where
  "trim s = rev (dropWhile isWhiteSpace (rev (dropWhile isWhiteSpace s)))"

text \<open>
  \<open>forEach\<close> with a callback that can throw: the first exception ends the loop. A
  \<open>forEach\<close> with an index runs over \<open>enumerate 0\<close>.
\<close>

fun foldE :: "('a \<Rightarrow> 's \<Rightarrow> 'e + 's) \<Rightarrow> 'a list \<Rightarrow> 's \<Rightarrow> 'e + 's" where
  "foldE f [] s = Inr s"
| "foldE f (x # xs) s = (case f x s of Inl e \<Rightarrow> Inl e | Inr s' \<Rightarrow> foldE f xs s')"

text \<open>
  Truthiness: \<open>undefined\<close>, \<open>null\<close>, \<open>false\<close>, zero and the empty string are falsy.
\<close>

fun truthy :: "json option \<Rightarrow> bool" where
  "truthy None = False"
| "truthy (Some JNull) = False"
| "truthy (Some (JBool b)) = b"
| "truthy (Some (JNum s)) = (s \<noteq> ''0'')"
| "truthy (Some (JStr s)) = (s \<noteq> [])"
| "truthy (Some (JArr xs)) = True"
| "truthy (Some (JObj kvs)) = True"

text \<open>
  \<open>v.name\<close> for a value \<open>v\<close> that is not \<open>null\<close> and one of the field names that the
  validator reads (\<open>id\<close>, \<open>title\<close>, \<open>questions\<close>, \<open>results\<close>, \<open>text\<close>, \<open>options\<close>,
  \<open>label\<close>, \<open>scores\<close>, \<open>nextQuestionId\<close>, \<open>name\<close>, \<open>reasoning\<close>, \<open>tradeoffs\<close>,
  \<open>whenToReconsider\<close>): no prototype defines any of them, so the read finds an own
  property of an object and \<open>undefined\<close> in every other case. The read on \<open>null\<close> throws
  and is a branch of its own wherever it can happen.
\<close>

fun getField :: "json \<Rightarrow> string \<Rightarrow> json option" where
  "getField (JObj kvs) name = map_of kvs name"
| "getField v name = None"

text \<open>The tests \<open>typeof v === 'string'\<close>, \<open>typeof v === 'number'\<close> and
  \<open>typeof v === 'object'\<close> (which holds of \<open>null\<close>, arrays and objects).\<close>

fun isString :: "json option \<Rightarrow> bool" where
  "isString (Some (JStr s)) = True"
| "isString v = False"

fun isNumber :: "json \<Rightarrow> bool" where
  "isNumber (JNum s) = True"
| "isNumber v = False"

fun typeofObject :: "json option \<Rightarrow> bool" where
  "typeofObject (Some JNull) = True"
| "typeofObject (Some (JArr xs)) = True"
| "typeofObject (Some (JObj kvs)) = True"
| "typeofObject v = False"

text \<open>
  \<open>Object.entries\<close> of a value that is not \<open>null\<close>: the own properties of an object, the
  elements of an array under their indices, the code units of a string under their indices,
  nothing for a number or a boolean. \<open>Object.keys\<close> is \<open>map fst\<close> of it.
\<close>

definition indexed :: "'a list \<Rightarrow> (string \<times> 'a) list" where
  "indexed xs = zip (map show_nat [0..<length xs]) xs"

fun ownEntries :: "json \<Rightarrow> (string \<times> json) list" where
  "ownEntries (JObj kvs) = kvs"
| "ownEntries (JArr xs) = indexed xs"
| "ownEntries (JStr s) = indexed (map (\<lambda>c. JStr [c]) s)"
| "ownEntries v = []"

text \<open>
  A value inside a template literal. An array prints its elements separated by commas, with
  \<open>null\<close> printed as the empty string; an object prints \<open>[object Object]\<close> through the
  inherited \<open>toString\<close>, unless it has an own property \<open>toString\<close>, which no parsed value
  can call: the conversion throws. \<open>Math.max\<close> converts its arguments to numbers and throws
  on the same values.
\<close>

fun render :: "json \<Rightarrow> Thrown + string"
  and renderElements :: "json list \<Rightarrow> Thrown + string"
where
  "render JNull = Inr ''null''"
| "render (JBool b) = Inr (if b then ''true'' else ''false'')"
| "render (JNum s) = Inr s"
| "render (JStr s) = Inr s"
| "render (JArr xs) = renderElements xs"
| "render (JObj kvs) =
     (if ''toString'' \<in> set (map fst kvs) then Inl TypeError else Inr ''[object Object]'')"
| "renderElements [] = Inr []"
| "renderElements (x # xs) =
     (case (if x = JNull then Inr [] else render x) of
        Inl e \<Rightarrow> Inl e
      | Inr s \<Rightarrow>
          (if xs = [] then Inr s
           else (case renderElements xs of
                   Inl e \<Rightarrow> Inl e
                 | Inr t \<Rightarrow> Inr (s @ '','' @ t))))"

definition renderValue :: "json option \<Rightarrow> Thrown + string" where
  "renderValue v = (case v of None \<Rightarrow> Inr ''undefined'' | Some x \<Rightarrow> render x)"

text \<open>\<open>[...path, questionId].join(' -> ')\<close>: \<open>undefined\<close> and \<open>null\<close> print as the empty
  string.\<close>

fun joinArrow :: "json option list \<Rightarrow> Thrown + string" where
  "joinArrow [] = Inr []"
| "joinArrow (x # xs) =
     (case (if x = None \<or> x = Some JNull then Inr [] else renderValue x) of
        Inl e \<Rightarrow> Inl e
      | Inr s \<Rightarrow>
          (if xs = [] then Inr s
           else (case joinArrow xs of
                   Inl e \<Rightarrow> Inl e
                 | Inr t \<Rightarrow> Inr (s @ '' -> '' @ t))))"

text \<open>
  \<open>===\<close>, \<open>Set.prototype.has\<close> and \<open>Array.prototype.includes\<close> between two different
  occurrences of a value in the tree: primitives are compared by value, an array or an object
  is equal to itself only. A \<open>Set\<close> is the list of the values added to it.
\<close>

fun isPrimitive :: "json option \<Rightarrow> bool" where
  "isPrimitive (Some (JArr xs)) = False"
| "isPrimitive (Some (JObj kvs)) = False"
| "isPrimitive v = True"

definition sameValue :: "json option \<Rightarrow> json option \<Rightarrow> bool" where
  "sameValue a b = (isPrimitive a \<and> a = b)"

definition has :: "json option list \<Rightarrow> json option \<Rightarrow> bool" where
  "has members v = list_ex (sameValue v) members"

text \<open>
  \<open>tree.results\<close> once \<open>validateBasicStructure\<close> has accepted it: an array or an
  object. \<open>tree.results[tech]\<close> finds an own property, or else a property that the
  prototype chain defines (ECMAScript 2023), all of which are truthy; \<open>length\<close> of an array
  is truthy when the array is not empty.
\<close>

datatype container = ArrayOf "json list" | ObjectOf "(string \<times> json) list"

definition objectPrototypeNames :: "string list" where
  "objectPrototypeNames =
     [''constructor'', ''hasOwnProperty'', ''isPrototypeOf'', ''propertyIsEnumerable'',
      ''toLocaleString'', ''toString'', ''valueOf'', ''__proto__'',
      ''__defineGetter__'', ''__defineSetter__'', ''__lookupGetter__'', ''__lookupSetter__'']"

definition arrayPrototypeNames :: "string list" where
  "arrayPrototypeNames =
     [''at'', ''concat'', ''copyWithin'', ''entries'', ''every'', ''fill'', ''filter'', ''find'',
      ''findIndex'', ''findLast'', ''findLastIndex'', ''flat'', ''flatMap'', ''forEach'',
      ''includes'', ''indexOf'', ''join'', ''keys'', ''lastIndexOf'', ''map'', ''pop'', ''push'',
      ''reduce'', ''reduceRight'', ''reverse'', ''shift'', ''slice'', ''some'', ''sort'',
      ''splice'', ''toReversed'', ''toSorted'', ''toSpliced'', ''unshift'', ''values'', ''with'']"

definition containerEntries :: "container \<Rightarrow> (string \<times> json) list" where
  "containerEntries c = (case c of ArrayOf xs \<Rightarrow> indexed xs | ObjectOf kvs \<Rightarrow> kvs)"

definition resultTruthy :: "container \<Rightarrow> string \<Rightarrow> bool" where
  "resultTruthy c tech =
     (case map_of (containerEntries c) tech of
        Some v \<Rightarrow> truthy (Some v)
      | None \<Rightarrow>
          (case c of
             ObjectOf kvs \<Rightarrow> tech \<in> set objectPrototypeNames
           | ArrayOf xs \<Rightarrow>
               (if tech = ''length'' then xs \<noteq> []
                else tech \<in> set (arrayPrototypeNames @ objectPrototypeNames))))"

text \<open>\<open>Object.entries(option.scores)\<close> under the guard \<open>if (option.scores)\<close>.\<close>

definition scoreEntries :: "json option \<Rightarrow> (string \<times> json) list" where
  "scoreEntries scores = (case scores of None \<Rightarrow> [] | Some v \<Rightarrow> ownEntries v)"

text \<open>\<open>v.length === 0\<close> for a truthy \<open>v\<close>.\<close>

fun lengthIsZero :: "json option \<Rightarrow> bool" where
  "lengthIsZero (Some (JStr s)) = (length s = 0)"
| "lengthIsZero (Some (JArr xs)) = (length xs = 0)"
| "lengthIsZero (Some (JObj kvs)) = (map_of kvs ''length'' = Some (JNum ''0''))"
| "lengthIsZero v = False"

definition validateBasicStructure :: "json option \<Rightarrow> ValidationError list \<Rightarrow> ValidationError list" where
  "validateBasicStructure tree errors =
     (case tree of
        None \<Rightarrow> errors @ [mkError ''TREE_NULL'' ''Tree is null or undefined'' None]
      | Some t \<Rightarrow>
          (if \<not> truthy (Some t)
           then errors @ [mkError ''TREE_NULL'' ''Tree is null or undefined'' None]
           else
             (let errors1 =
                    (if \<not> truthy (getField t ''id'') \<or> \<not> isString (getField t ''id'')
                     then errors @ [mkError ''MISSING_TREE_ID'' ''Tree must have a valid id'' None]
                     else errors);
                  errors2 =
                    (if \<not> truthy (getField t ''title'') \<or> \<not> isString (getField t ''title'')
                     then errors1 @ [mkError ''MISSING_TREE_TITLE'' ''Tree must have a title'' None]
                     else errors1)
              in (case getField t ''questions'' of
                    Some (JArr qs) \<Rightarrow>
                      (let errors3 =
                             (if length qs = 0
                              then errors2 @ [mkError ''EMPTY_TREE''
                                     ''Tree must have at least one question'' None]
                              else errors2)
                       in (if \<not> truthy (getField t ''results'') \<or>
                              \<not> typeofObject (getField t ''results'')
                           then errors3 @ [mkError ''INVALID_RESULTS''
                                  ''Tree must have a results object'' None]
                           else errors3))
                  | _ \<Rightarrow>
                      errors2 @ [mkError ''INVALID_QUESTIONS''
                        ''Tree must have a questions array'' None]))))"

text \<open>
  The two fields that the later stages read, \<open>tree.questions\<close> and \<open>tree.results\<close>, once
  \<open>validateBasicStructure\<close> has pushed nothing (lemma \<open>basic_ok_checked\<close> below).
\<close>

definition checkedTree :: "json option \<Rightarrow> (json list \<times> container) option" where
  "checkedTree tree =
     (case tree of
        None \<Rightarrow> None
      | Some t \<Rightarrow>
          (case (getField t ''questions'', getField t ''results'') of
             (Some (JArr qs), Some (JArr rs)) \<Rightarrow> Some (qs, ArrayOf rs)
           | (Some (JArr qs), Some (JObj kvs)) \<Rightarrow> Some (qs, ObjectOf kvs)
           | _ \<Rightarrow> None))"

text \<open>
  The body of \<open>options.forEach\<close> in \<open>validateOptions\<close>, block by block: the id
  (the state carries \<open>optionIds\<close>), the label (\<open>trim\<close> is a function on strings only), the
  scores object, the score values.
\<close>

definition checkOptionId ::
  "string \<Rightarrow> json \<Rightarrow> json option list \<times> ValidationError list \<Rightarrow>
   Thrown + (json option list \<times> ValidationError list)"
where
  "checkOptionId location option state =
     (case state of (optionIds, errors) \<Rightarrow>
        (if \<not> truthy (getField option ''id'') then
           Inr (optionIds,
                errors @ [mkError ''MISSING_OPTION_ID'' ''Option missing id'' (Some location)])
         else if has optionIds (getField option ''id'') then
           (case renderValue (getField option ''id'') of
              Inl e \<Rightarrow> Inl e
            | Inr rendered \<Rightarrow>
                Inr (optionIds,
                     errors @ [mkError ''DUPLICATE_OPTION_ID''
                       (''Duplicate option id: '' @ rendered) (Some location)]))
         else Inr (optionIds @ [getField option ''id''], errors)))"

definition checkOptionLabel ::
  "string \<Rightarrow> json \<Rightarrow> ValidationError list \<Rightarrow> Thrown + ValidationError list"
where
  "checkOptionLabel location option errors =
     (if \<not> truthy (getField option ''label'') then
        Inr (errors @ [mkError ''MISSING_OPTION_LABEL'' ''Option missing label'' (Some location)])
      else
        (case getField option ''label'' of
           Some (JStr s) \<Rightarrow>
             Inr (if length (trim s) = 0
                  then errors @ [mkError ''MISSING_OPTION_LABEL'' ''Option missing label''
                         (Some location)]
                  else errors)
         | _ \<Rightarrow> Inl TypeError))"

definition checkOptionScores ::
  "string \<Rightarrow> json \<Rightarrow> ValidationError list \<times> ValidationWarning list \<Rightarrow>
   ValidationError list \<times> ValidationWarning list"
where
  "checkOptionScores location option report =
     (case report of (errors, warnings) \<Rightarrow>
        (if \<not> truthy (getField option ''scores'') \<or> \<not> typeofObject (getField option ''scores'')
         then (errors @ [mkError ''MISSING_SCORES'' ''Option missing scores object''
                 (Some location)], warnings)
         else if length (map fst (scoreEntries (getField option ''scores''))) = 0
         then (errors, warnings @ [mkWarning ''EMPTY_SCORES'' ''Option has no scores defined''
                 (Some location)])
         else (errors, warnings)))"

definition checkScoreValues ::
  "string \<Rightarrow> json \<Rightarrow> ValidationError list \<Rightarrow> ValidationError list"
where
  "checkScoreValues location option errors =
     (if truthy (getField option ''scores'') then
        fold (\<lambda>scoreEntry es.
                case scoreEntry of (tech, score) \<Rightarrow>
                  if \<not> isNumber score
                  then es @ [mkError ''INVALID_SCORE''
                         (''Score for '' @ tech @ '' must be a number'')
                         (Some (location @ ''.scores.'' @ tech))]
                  else es)
          (scoreEntries (getField option ''scores'')) errors
      else errors)"

definition validateOptionsStep ::
  "string \<Rightarrow> nat \<times> json \<Rightarrow>
   json option list \<times> ValidationError list \<times> ValidationWarning list \<Rightarrow>
   Thrown + (json option list \<times> ValidationError list \<times> ValidationWarning list)"
where
  "validateOptionsStep questionLocation entry state =
     (case (entry, state) of ((index, option), (optionIds, errors, warnings)) \<Rightarrow>
        (if option = JNull then Inl TypeError
         else
           (let location = questionLocation @ ''.options['' @ show_nat index @ '']'' in
            (case checkOptionId location option (optionIds, errors) of
               Inl e \<Rightarrow> Inl e
             | Inr (optionIds1, errors1) \<Rightarrow>
                 (case checkOptionLabel location option errors1 of
                    Inl e \<Rightarrow> Inl e
                  | Inr errors2 \<Rightarrow>
                      (case checkOptionScores location option (errors2, warnings) of
                         (errors3, warnings1) \<Rightarrow>
                           Inr (optionIds1, checkScoreValues location option errors3,
                                warnings1)))))))"

definition validateOptions ::
  "json list \<Rightarrow> string \<Rightarrow> ValidationError list \<times> ValidationWarning list \<Rightarrow>
   Thrown + (ValidationError list \<times> ValidationWarning list)"
where
  "validateOptions options questionLocation report =
     (case foldE (validateOptionsStep questionLocation) (enumerate 0 options) ([], report) of
        Inl e \<Rightarrow> Inl e
      | Inr (optionIds, report1) \<Rightarrow> Inr report1)"

text \<open>
  The body of \<open>tree.questions.forEach\<close> in \<open>validateQuestions\<close>, block by block: the id
  (the state carries \<open>questionIds\<close>), the text, the options.
\<close>

definition checkQuestionId ::
  "string \<Rightarrow> json \<Rightarrow> json option list \<times> ValidationError list \<Rightarrow>
   Thrown + (json option list \<times> ValidationError list)"
where
  "checkQuestionId location question state =
     (case state of (questionIds, errors) \<Rightarrow>
        (if \<not> truthy (getField question ''id'') then
           Inr (questionIds,
                errors @ [mkError ''MISSING_QUESTION_ID'' ''Question missing id'' (Some location)])
         else if has questionIds (getField question ''id'') then
           (case renderValue (getField question ''id'') of
              Inl e \<Rightarrow> Inl e
            | Inr rendered \<Rightarrow>
                Inr (questionIds,
                     errors @ [mkError ''DUPLICATE_QUESTION_ID''
                       (''Duplicate question id: '' @ rendered) (Some location)]))
         else Inr (questionIds @ [getField question ''id''], errors)))"

definition checkQuestionText ::
  "string \<Rightarrow> json \<Rightarrow> ValidationError list \<Rightarrow> Thrown + ValidationError list"
where
  "checkQuestionText location question errors =
     (if \<not> truthy (getField question ''text'') then
        Inr (errors @ [mkError ''MISSING_QUESTION_TEXT'' ''Question missing text'' (Some location)])
      else
        (case getField question ''text'' of
           Some (JStr s) \<Rightarrow>
             Inr (if length (trim s) = 0
                  then errors @ [mkError ''MISSING_QUESTION_TEXT'' ''Question missing text''
                         (Some location)]
                  else errors)
         | _ \<Rightarrow> Inl TypeError))"

definition checkQuestionOptions ::
  "string \<Rightarrow> json \<Rightarrow> ValidationError list \<times> ValidationWarning list \<Rightarrow>
   Thrown + (ValidationError list \<times> ValidationWarning list)"
where
  "checkQuestionOptions location question report =
     (case report of (errors, warnings) \<Rightarrow>
        (case getField question ''options'' of
           Some (JArr opts) \<Rightarrow>
             (if length opts = 0 then
                Inr (errors @ [mkError ''MISSING_OPTIONS''
                       ''Question must have at least one option'' (Some location)], warnings)
              else validateOptions opts location (errors, warnings))
         | _ \<Rightarrow>
             Inr (errors @ [mkError ''MISSING_OPTIONS''
                    ''Question must have at least one option'' (Some location)], warnings)))"

definition validateQuestionsStep ::
  "nat \<times> json \<Rightarrow>
   json option list \<times> ValidationError list \<times> ValidationWarning list \<Rightarrow>
   Thrown + (json option list \<times> ValidationError list \<times> ValidationWarning list)"
where
  "validateQuestionsStep entry state =
     (case (entry, state) of ((index, question), (questionIds, errors, warnings)) \<Rightarrow>
        (if question = JNull then Inl TypeError
         else
           (let location = ''questions['' @ show_nat index @ '']'' in
            (case checkQuestionId location question (questionIds, errors) of
               Inl e \<Rightarrow> Inl e
             | Inr (questionIds1, errors1) \<Rightarrow>
                 (case checkQuestionText location question errors1 of
                    Inl e \<Rightarrow> Inl e
                  | Inr errors2 \<Rightarrow>
                      (case checkQuestionOptions location question (errors2, warnings) of
                         Inl e \<Rightarrow> Inl e
                       | Inr report1 \<Rightarrow> Inr (questionIds1, report1)))))))"

definition validateQuestions ::
  "json list \<Rightarrow> ValidationError list \<times> ValidationWarning list \<Rightarrow>
   Thrown + (ValidationError list \<times> ValidationWarning list)"
where
  "validateQuestions treeQuestions report =
     (case foldE validateQuestionsStep (enumerate 0 treeQuestions) ([], report) of
        Inl e \<Rightarrow> Inl e
      | Inr (questionIds, report1) \<Rightarrow> Inr report1)"

text \<open>
  The body of the inner \<open>question.options.forEach\<close> in \<open>validateReferences\<close>: the
  reference, then the score keys. \<open>question.options.forEach\<close> throws unless
  \<open>question.options\<close> is an array.
\<close>

definition checkNextQuestionId ::
  "json option list \<Rightarrow> string \<Rightarrow> json \<Rightarrow> json \<Rightarrow> ValidationError list \<Rightarrow>
   Thrown + ValidationError list"
where
  "checkNextQuestionId questionIds location question option errors =
     (if getField option ''nextQuestionId'' \<noteq> Some JNull then
        (case (if \<not> has questionIds (getField option ''nextQuestionId'') then
                 (case renderValue (getField option ''nextQuestionId'') of
                    Inl e \<Rightarrow> Inl e
                  | Inr rendered \<Rightarrow>
                      Inr (errors @ [mkError ''INVALID_REFERENCE''
                             (''nextQuestionId '' @ [CHR 0x22] @ rendered @ [CHR 0x22] @
                              '' does not exist'') (Some location)]))
               else Inr errors) of
           Inl e \<Rightarrow> Inl e
         | Inr errors1 \<Rightarrow>
             Inr (if sameValue (getField option ''nextQuestionId'') (getField question ''id'')
                  then errors1 @ [mkError ''CIRCULAR_REFERENCE''
                         ''Option references its own question (infinite loop)''
                         (Some location)]
                  else errors1))
      else Inr errors)"

definition checkScoreKeys ::
  "container \<Rightarrow> string \<Rightarrow> json \<Rightarrow> ValidationError list \<Rightarrow> ValidationError list"
where
  "checkScoreKeys treeResults location option errors =
     (if truthy (getField option ''scores'') then
        fold (\<lambda>tech es.
                if \<not> resultTruthy treeResults tech
                then es @ [mkError ''MISSING_RESULT''
                       (''Score references technology '' @ [CHR 0x22] @ tech @
                        [CHR 0x22] @ '' but no result exists'')
                       (Some (location @ ''.scores.'' @ tech))]
                else es)
          (map fst (scoreEntries (getField option ''scores''))) errors
      else errors)"

definition validateReferencesOption ::
  "container \<Rightarrow> json option list \<Rightarrow> nat \<Rightarrow> json \<Rightarrow> nat \<times> json \<Rightarrow>
   ValidationError list \<Rightarrow> Thrown + ValidationError list"
where
  "validateReferencesOption treeResults questionIds qIndex question entry errors =
     (case entry of (oIndex, option) \<Rightarrow>
        (if option = JNull then Inl TypeError
         else
           (let location =
                  ''questions['' @ show_nat qIndex @ ''].options['' @ show_nat oIndex @ '']''
            in (case checkNextQuestionId questionIds location question option errors of
                  Inl e \<Rightarrow> Inl e
                | Inr errors2 \<Rightarrow> Inr (checkScoreKeys treeResults location option errors2)))))"

definition validateReferences ::
  "json list \<Rightarrow> container \<Rightarrow> ValidationError list \<Rightarrow> Thrown + ValidationError list"
where
  "validateReferences treeQuestions treeResults errors =
     (if JNull \<in> set treeQuestions then Inl TypeError
      else
        (let questionIds = map (\<lambda>q. getField q ''id'') treeQuestions
         in foldE (\<lambda>qEntry es.
                     case qEntry of (qIndex, question) \<Rightarrow>
                       (case getField question ''options'' of
                          Some (JArr opts) \<Rightarrow>
                            foldE (validateReferencesOption treeResults questionIds qIndex question)
                              (enumerate 0 opts) es
                        | _ \<Rightarrow> Inl TypeError))
              (enumerate 0 treeQuestions) errors))"

text \<open>
  The closure \<open>dfs\<close> of \<open>validateReachability\<close>. Here an id met during the search can be
  compared with itself (the id of the first question is in \<open>reachable\<close> when the
  unreachable questions are listed), so an id is kept with the place it was read from:
  two ids are the same when they were read from the same place or are the same primitive.

  \<open>followed j question\<close> lists, in option order, the truthy \<open>nextQuestionId\<close>s of question
  \<open>j\<close>, for which the loop calls \<open>dfs\<close>; \<open>for ... of\<close> throws unless \<open>question.options\<close> is
  an array or a string, and reading \<open>nextQuestionId\<close> throws on a \<open>null\<close> option. A call
  returns before its caller follows the next option, so the calls still to be made form a
  stack of \<open>(questionId, path)\<close> pairs: the head is the call that runs now, and the calls
  it makes are put in front of the rest. \<open>visited\<close>, \<open>reachable\<close> and \<open>errors\<close> are the
  captured variables.
\<close>

datatype occurrence = QuestionId nat | NextQuestionId nat nat

type_synonym idRef = "json option \<times> occurrence"

definition sameRef :: "idRef \<Rightarrow> idRef \<Rightarrow> bool" where
  "sameRef a b = (snd a = snd b \<or> sameValue (fst a) (fst b))"

fun findQuestion :: "(nat \<times> json) list \<Rightarrow> idRef \<Rightarrow> Thrown + (nat \<times> json) option" where
  "findQuestion [] wanted = Inr None"
| "findQuestion ((j, q) # rest) wanted =
     (if q = JNull then Inl TypeError
      else if sameRef (getField q ''id'', QuestionId j) wanted then Inr (Some (j, q))
      else findQuestion rest wanted)"

definition followed :: "nat \<Rightarrow> json \<Rightarrow> Thrown + idRef list" where
  "followed j question =
     (case getField question ''options'' of
        Some (JArr opts) \<Rightarrow>
          (if JNull \<in> set opts then Inl TypeError
           else Inr (concat (map (\<lambda>optEntry.
                       case optEntry of (i, option) \<Rightarrow>
                         (if truthy (getField option ''nextQuestionId'')
                          then [(getField option ''nextQuestionId'', NextQuestionId j i)]
                          else []))
                     (enumerate 0 opts))))
      | Some (JStr s) \<Rightarrow> Inr []
      | _ \<Rightarrow> Inl TypeError)"

definition followedRefs :: "json list \<Rightarrow> idRef set" where
  "followedRefs treeQuestions =
     set (concat (map (\<lambda>qEntry. case qEntry of (j, q) \<Rightarrow>
                         (case followed j q of Inl e \<Rightarrow> [] | Inr nexts \<Rightarrow> nexts))
                      (enumerate 0 treeQuestions)))"

function dfs ::
  "json list \<Rightarrow> (idRef \<times> idRef list) list \<Rightarrow> idRef list \<Rightarrow> idRef list \<Rightarrow>
   ValidationError list \<Rightarrow> Thrown + (idRef list \<times> idRef list \<times> ValidationError list)"
where
  "dfs treeQuestions [] visited reachable errors = Inr (visited, reachable, errors)"
| "dfs treeQuestions ((current, path) # pending) visited reachable errors =
     (if list_ex (sameRef current) visited then
        (if list_ex (sameRef current) path then
           (case joinArrow (map fst (path @ [current])) of
              Inl e \<Rightarrow> Inl e
            | Inr rendered \<Rightarrow>
                dfs treeQuestions pending visited reachable
                  (errors @ [mkError ''CIRCULAR_REFERENCE''
                     (''Circular reference detected: '' @ rendered) None]))
         else dfs treeQuestions pending visited reachable errors)
      else
        (case findQuestion (enumerate 0 treeQuestions) current of
           Inl e \<Rightarrow> Inl e
         | Inr None \<Rightarrow>
             dfs treeQuestions pending (visited @ [current]) (reachable @ [current]) errors
         | Inr (Some (j, question)) \<Rightarrow>
             (if \<not> truthy (Some question) then
                dfs treeQuestions pending (visited @ [current]) (reachable @ [current]) errors
              else
                (case followed j question of
                   Inl e \<Rightarrow> Inl e
                 | Inr nexts \<Rightarrow>
                     dfs treeQuestions (map (\<lambda>next. (next, path @ [current])) nexts @ pending)
                       (visited @ [current]) (reachable @ [current]) errors))))"
  by pat_completeness auto

termination
proof (relation "inv_image (less_than <*lex*> less_than)
        (\<lambda>(treeQuestions, pending, visited, reachable, errors).
           (card {r \<in> followedRefs treeQuestions \<union> fst ` set pending.
                    \<not> list_ex (sameRef r) visited},
            length pending))",
       goal_cases)
  case 1
  show ?case by (intro wf_inv_image wf_lex_prod wf_less_than)
next
  case (2 treeQuestions current path pending visited reachable errors rendered)
  have fin: "finite (followedRefs treeQuestions)" unfolding followedRefs_def by (rule finite_set)
  have "card {r \<in> followedRefs treeQuestions \<union> fst ` set pending.
                \<not> list_ex (sameRef r) visited}
        \<le> card {r \<in> followedRefs treeQuestions \<union> fst ` set ((current, path) # pending).
                \<not> list_ex (sameRef r) visited}"
    by (intro card_mono) (auto simp: fin)
  then show ?case
    unfolding in_inv_image split_conv in_lex_prod less_than_iff length_Cons by arith
next
  case (3 treeQuestions current path pending visited reachable errors)
  have fin: "finite (followedRefs treeQuestions)" unfolding followedRefs_def by (rule finite_set)
  have "card {r \<in> followedRefs treeQuestions \<union> fst ` set pending.
                \<not> list_ex (sameRef r) visited}
        \<le> card {r \<in> followedRefs treeQuestions \<union> fst ` set ((current, path) # pending).
                \<not> list_ex (sameRef r) visited}"
    by (intro card_mono) (auto simp: fin)
  then show ?case
    unfolding in_inv_image split_conv in_lex_prod less_than_iff length_Cons by arith
next
  case (4 treeQuestions current path pending visited reachable errors found)
  have fin: "finite (followedRefs treeQuestions)" unfolding followedRefs_def by (rule finite_set)
  have self: "sameRef current current" by (simp add: sameRef_def)
  have "{r \<in> followedRefs treeQuestions \<union> fst ` set pending.
           \<not> list_ex (sameRef r) (visited @ [current])}
        \<subset> {r \<in> followedRefs treeQuestions \<union> fst ` set ((current, path) # pending).
           \<not> list_ex (sameRef r) visited}"
    using 4(1) self by (auto simp: list_ex_iff)
  then have "card {r \<in> followedRefs treeQuestions \<union> fst ` set pending.
           \<not> list_ex (sameRef r) (visited @ [current])}
        < card {r \<in> followedRefs treeQuestions \<union> fst ` set ((current, path) # pending).
           \<not> list_ex (sameRef r) visited}"
    by (intro psubset_card_mono) (auto simp: fin)
  then show ?case
    unfolding in_inv_image split_conv in_lex_prod less_than_iff length_Cons by arith
next
  case (5 treeQuestions current path pending visited reachable errors found entry j question)
  have fin: "finite (followedRefs treeQuestions)" unfolding followedRefs_def by (rule finite_set)
  have self: "sameRef current current" by (simp add: sameRef_def)
  have "{r \<in> followedRefs treeQuestions \<union> fst ` set pending.
           \<not> list_ex (sameRef r) (visited @ [current])}
        \<subset> {r \<in> followedRefs treeQuestions \<union> fst ` set ((current, path) # pending).
           \<not> list_ex (sameRef r) visited}"
    using 5(1) self by (auto simp: list_ex_iff)
  then have "card {r \<in> followedRefs treeQuestions \<union> fst ` set pending.
           \<not> list_ex (sameRef r) (visited @ [current])}
        < card {r \<in> followedRefs treeQuestions \<union> fst ` set ((current, path) # pending).
           \<not> list_ex (sameRef r) visited}"
    by (intro psubset_card_mono) (auto simp: fin)
  then show ?case
    unfolding in_inv_image split_conv in_lex_prod less_than_iff length_Cons by arith
next
  case (6 treeQuestions current path pending visited reachable errors found entry j question nexts)
  have fin: "finite (followedRefs treeQuestions)" unfolding followedRefs_def by (rule finite_set)
  have self: "sameRef current current" by (simp add: sameRef_def)
  have mem: "findQuestion es wanted = Inr (Some e) \<Longrightarrow> e \<in> set es" for es wanted e
    by (induction es wanted rule: findQuestion.induct) (auto split: if_splits)
  from 6 have "(j, question) \<in> set (enumerate 0 treeQuestions)"
    using mem [of "enumerate 0 treeQuestions" current "(j, question)"] by simp
  with 6 have sub: "set nexts \<subseteq> followedRefs treeQuestions"
    by (force simp: followedRefs_def)
  have "{r \<in> followedRefs treeQuestions \<union>
               fst ` set (map (\<lambda>next. (next, path @ [current])) nexts @ pending).
           \<not> list_ex (sameRef r) (visited @ [current])}
        \<subset> {r \<in> followedRefs treeQuestions \<union> fst ` set ((current, path) # pending).
           \<not> list_ex (sameRef r) visited}"
    using 6(1) self sub by (auto simp: list_ex_iff image_iff)
  then have "card {r \<in> followedRefs treeQuestions \<union>
               fst ` set (map (\<lambda>next. (next, path @ [current])) nexts @ pending).
           \<not> list_ex (sameRef r) (visited @ [current])}
        < card {r \<in> followedRefs treeQuestions \<union> fst ` set ((current, path) # pending).
           \<not> list_ex (sameRef r) visited}"
    by (intro psubset_card_mono) (auto simp: fin)
  then show ?case
    unfolding in_inv_image split_conv in_lex_prod less_than_iff length_Cons by arith
qed

text \<open>\<open>validateReachability\<close>: the search starts at \<open>tree.questions[0].id\<close> with an
  empty path.\<close>

definition validateReachability ::
  "json list \<Rightarrow> ValidationError list \<times> ValidationWarning list \<Rightarrow>
   Thrown + (ValidationError list \<times> ValidationWarning list)"
where
  "validateReachability treeQuestions report =
     (case report of (errors, warnings) \<Rightarrow>
        (if length treeQuestions = 0 then Inr (errors, warnings)
         else
             (if treeQuestions ! 0 = JNull then Inl TypeError
              else
                (case dfs treeQuestions
                        [((getField (treeQuestions ! 0) ''id'', QuestionId 0), [])] [] [] errors of
                   Inl e \<Rightarrow> Inl e
                 | Inr (visited, reachable, errors1) \<Rightarrow>
                     (if JNull \<in> set treeQuestions then Inl TypeError
                      else
                        (let allQuestionIds =
                               map (\<lambda>qEntry. case qEntry of (j, q) \<Rightarrow>
                                      (getField q ''id'', QuestionId j))
                                   (enumerate 0 treeQuestions);
                             unreachable =
                               filter (\<lambda>r. \<not> list_ex (sameRef r) reachable) allQuestionIds
                         in (case foldE (\<lambda>r ws.
                                      case renderValue (fst r) of
                                        Inl e \<Rightarrow> Inl e
                                      | Inr rendered \<Rightarrow>
                                          Inr (ws @ [mkWarning ''UNREACHABLE_QUESTION''
                                                 (''Question '' @ [CHR 0x22] @ rendered @ [CHR 0x22] @
                                                  '' is not reachable from the starting question'')
                                                 None]))
                                    unreachable warnings of
                               Inl e \<Rightarrow> Inl e
                             | Inr warnings1 \<Rightarrow> Inr (errors1, warnings1))))))))"

text \<open>The body of \<open>resultKeys.forEach\<close>: \<open>tree.results[key]\<close> is the entry of that key.\<close>

definition validateResultsStep ::
  "string \<times> json \<Rightarrow> ValidationError list \<times> ValidationWarning list \<Rightarrow>
   Thrown + (ValidationError list \<times> ValidationWarning list)"
where
  "validateResultsStep entry report =
     (case (entry, report) of ((key, result), (errors, warnings)) \<Rightarrow>
        (if result = JNull then Inl TypeError
         else
           (let location = ''results.'' @ key;
                errors1 =
                  (if \<not> truthy (getField result ''name'')
                   then errors @ [mkError ''MISSING_RESULT_NAME'' ''Result missing name''
                          (Some location)]
                   else errors);
                warnings1 =
                  (if \<not> truthy (getField result ''reasoning'')
                   then warnings @ [mkWarning ''MISSING_REASONING'' ''Result missing reasoning''
                          (Some location)]
                   else warnings);
                warnings2 =
                  (if \<not> truthy (getField result ''tradeoffs'') \<or>
                      lengthIsZero (getField result ''tradeoffs'')
                   then warnings1 @ [mkWarning ''MISSING_TRADEOFFS'' ''Result missing tradeoffs''
                          (Some location)]
                   else warnings1);
                warnings3 =
                  (if \<not> truthy (getField result ''whenToReconsider'')
                   then warnings2 @ [mkWarning ''MISSING_RECONSIDER''
                          ''Result missing whenToReconsider'' (Some location)]
                   else warnings2)
            in Inr (errors1, warnings3))))"

definition validateResults ::
  "container \<Rightarrow> ValidationError list \<times> ValidationWarning list \<Rightarrow>
   Thrown + (ValidationError list \<times> ValidationWarning list)"
where
  "validateResults treeResults report =
     (case report of (errors, warnings) \<Rightarrow>
        (if length (map fst (containerEntries treeResults)) = 0
         then Inr (errors @ [mkError ''NO_RESULTS''
                 ''Tree must have at least one result definition'' None], warnings)
         else foldE validateResultsStep (containerEntries treeResults) (errors, warnings)))"

text \<open>
  \<open>validateScoreBalance\<close>. Its first loop reads \<open>Object.entries(option.scores)\<close> of every
  option, which throws when \<open>scores\<close> is \<open>undefined\<close> or \<open>null\<close>, and passes every score
  to \<open>Math.max\<close>, which throws when the score does not convert (\<open>scanScores\<close>). The rest
  computes an average and a relative deviation in double precision and pushes warnings
  only. The warnings it pushes are the parameter \<open>scoreBalanceWarnings\<close> of \<open>validate\<close>, a
  function of \<open>tree.questions\<close>, so that every statement about \<open>validate\<close> holds whatever
  that stage pushes.
\<close>

definition scanScores :: "json list \<Rightarrow> Thrown + unit" where
  "scanScores treeQuestions =
     foldE (\<lambda>question u.
              if question = JNull then Inl TypeError
              else
                (case getField question ''options'' of
                   Some (JArr opts) \<Rightarrow>
                     foldE (\<lambda>option u.
                              if option = JNull then Inl TypeError
                              else
                                (case getField option ''scores'' of
                                   None \<Rightarrow> Inl TypeError
                                 | Some scores \<Rightarrow>
                                     (if scores = JNull then Inl TypeError
                                      else
                                        foldE (\<lambda>scoreEntry u.
                                                 case render (snd scoreEntry) of
                                                   Inl e \<Rightarrow> Inl e
                                                 | Inr rendered \<Rightarrow> Inr u)
                                          (ownEntries scores) u)))
                       opts u
                 | _ \<Rightarrow> Inl TypeError))
       treeQuestions ()"

definition validateScoreBalance ::
  "(json list \<Rightarrow> ValidationWarning list) \<Rightarrow> json list \<Rightarrow> ValidationWarning list \<Rightarrow>
   Thrown + ValidationWarning list"
where
  "validateScoreBalance scoreBalanceWarnings treeQuestions warnings =
     (case scanScores treeQuestions of
        Inl e \<Rightarrow> Inl e
      | Inr u \<Rightarrow> Inr (warnings @ scoreBalanceWarnings treeQuestions))"

text \<open>
  \<open>validate\<close>. When \<open>validateBasicStructure\<close> pushed nothing, \<open>tree.questions\<close> is an
  array and \<open>tree.results\<close> an array or an object, so the branch \<open>None\<close> of \<open>checkedTree\<close>
  is never taken.
\<close>

definition validate ::
  "(json list \<Rightarrow> ValidationWarning list) \<Rightarrow> json option \<Rightarrow> Thrown + ValidationResult"
where
  "validate scoreBalanceWarnings tree =
     (let errors = validateBasicStructure tree []; warnings = [] in
      if length errors > 0 then
        Inr \<lparr>vr_isValid = False, vr_errors = errors, vr_warnings = warnings\<rparr>
      else
        (case checkedTree tree of
           None \<Rightarrow>
             Inr \<lparr>vr_isValid = (length errors = 0), vr_errors = errors, vr_warnings = warnings\<rparr>
         | Some (treeQuestions, treeResults) \<Rightarrow>
             (case validateQuestions treeQuestions (errors, warnings) of
                Inl e \<Rightarrow> Inl e
              | Inr (errors1, warnings1) \<Rightarrow>
                  (case validateReferences treeQuestions treeResults errors1 of
                     Inl e \<Rightarrow> Inl e
                   | Inr errors2 \<Rightarrow>
                       (case validateReachability treeQuestions (errors2, warnings1) of
                          Inl e \<Rightarrow> Inl e
                        | Inr (errors3, warnings2) \<Rightarrow>
                            (case validateResults treeResults (errors3, warnings2) of
                               Inl e \<Rightarrow> Inl e
                             | Inr (errors4, warnings3) \<Rightarrow>
                                 (case validateScoreBalance scoreBalanceWarnings treeQuestions
                                         warnings3 of
                                    Inl e \<Rightarrow> Inl e
                                  | Inr warnings4 \<Rightarrow>
                                      Inr \<lparr>vr_isValid = (length errors4 = 0),
                                            vr_errors = errors4,
                                            vr_warnings = warnings4\<rparr>)))))))"

section \<open>Trees used as concrete inputs\<close>

text \<open>\<open>mockTree\<close> of backend/tests/services/RecommendationEngine.test.ts.\<close>

definition mockResult1 :: Result where
  "mockResult1 = \<lparr>r_name = ''Technology 1'', r_reasoning = ''Tech 1 is best'',
     r_tradeoffs = [''Tradeoff 1''], r_whenToReconsider = ''When X happens'',
     r_bestFor = ''Use case A''\<rparr>"

definition mockResult2 :: Result where
  "mockResult2 = \<lparr>r_name = ''Technology 2'', r_reasoning = ''Tech 2 is best'',
     r_tradeoffs = [''Tradeoff 2''], r_whenToReconsider = ''When Y happens'',
     r_bestFor = ''Use case B''\<rparr>"

definition mockTree :: DecisionTree where
  "mockTree = \<lparr>t_id = ''test-tree'', t_title = ''Test Tree'',
     t_description = ''Test description'', t_version = ''1.0.0'',
     questions =
       [\<lparr>q_id = ''q1'', q_text = ''Question 1?'',
          q_options =
            [\<lparr>o_id = ''opt1'', o_label = ''Option 1'', o_nextQuestionId = Some ''q2'',
               o_scores = [(''tech1'', 3), (''tech2'', 1)]\<rparr>,
             \<lparr>o_id = ''opt2'', o_label = ''Option 2'', o_nextQuestionId = None,
               o_scores = [(''tech1'', 1), (''tech2'', 3)]\<rparr>]\<rparr>,
        \<lparr>q_id = ''q2'', q_text = ''Question 2?'',
          q_options =
            [\<lparr>o_id = ''opt3'', o_label = ''Option 3'', o_nextQuestionId = None,
               o_scores = [(''tech1'', 2), (''tech2'', 1)]\<rparr>]\<rparr>],
     results = [(''tech1'', mockResult1), (''tech2'', mockResult2)]\<rparr>"

text \<open>
  Variations of the trees in the test suite: an option with a negative contribution, an
  option that scores nothing, outcome keys without a descriptor, and ties.
\<close>

definition negTree :: DecisionTree where
  "negTree = \<lparr>t_id = ''neg'', t_title = ''Negative points'', t_description = [],
     t_version = ''1.0.0'',
     questions =
       [\<lparr>q_id = ''q1'', q_text = ''Question?'',
          q_options =
            [\<lparr>o_id = ''opt1'', o_label = ''Option 1'', o_nextQuestionId = None,
               o_scores = [(''tech1'', 3), (''tech2'', - 4)]\<rparr>]\<rparr>],
     results = [(''tech1'', mockResult1), (''tech2'', mockResult2)]\<rparr>"

definition unscoredTree :: DecisionTree where
  "unscoredTree = \<lparr>t_id = ''unscored'', t_title = ''No points'', t_description = [],
     t_version = ''1.0.0'',
     questions =
       [\<lparr>q_id = ''q1'', q_text = ''Question?'',
          q_options =
            [\<lparr>o_id = ''opt1'', o_label = ''Option 1'', o_nextQuestionId = None,
               o_scores = []\<rparr>]\<rparr>],
     results = [(''tech1'', mockResult1)]\<rparr>"

definition undocumentedTree :: DecisionTree where
  "undocumentedTree = \<lparr>t_id = ''undocumented'', t_title = ''No descriptor'', t_description = [],
     t_version = ''1.0.0'',
     questions =
       [\<lparr>q_id = ''q1'', q_text = ''Question?'',
          q_options =
            [\<lparr>o_id = ''opt1'', o_label = ''Option 1'', o_nextQuestionId = None,
               o_scores = [(''tech3'', 2), (''tech1'', 1)]\<rparr>,
             \<lparr>o_id = ''opt2'', o_label = ''Option 2'', o_nextQuestionId = None,
               o_scores = [(''tech3'', 5), (''tech4'', 5)]\<rparr>]\<rparr>],
     results = [(''tech1'', mockResult1)]\<rparr>"

definition tieTree :: DecisionTree where
  "tieTree = \<lparr>t_id = ''test-tree'', t_title = ''Test Tree'',
     t_description = ''Test description'', t_version = ''1.0.0'',
     questions =
       [\<lparr>q_id = ''q1'', q_text = ''Question?'',
          q_options =
            [\<lparr>o_id = ''opt1'', o_label = ''Option 1'', o_nextQuestionId = None,
               o_scores = [(''b'', 5), (''a'', 5)]\<rparr>]\<rparr>],
     results = [(''a'', mockResult1), (''b'', mockResult2)]\<rparr>"

definition documentedTieTree :: DecisionTree where
  "documentedTieTree = \<lparr>t_id = ''half-documented'', t_title = ''One descriptor'', t_description = [],
     t_version = ''1.0.0'',
     questions =
       [\<lparr>q_id = ''q1'', q_text = ''Question?'',
          q_options =
            [\<lparr>o_id = ''opt1'', o_label = ''Option 1'', o_nextQuestionId = None,
               o_scores = [(''tech0'', 4), (''tech1'', 4)]\<rparr>]\<rparr>],
     results = [(''tech1'', mockResult1)]\<rparr>"

text \<open>A tree whose first question has the empty string as its id.\<close>

definition unnamedEntryTree :: DecisionTree where
  "unnamedEntryTree = \<lparr>t_id = ''unnamed-entry'', t_title = ''No entry id'', t_description = [],
     t_version = ''1.0.0'',
     questions =
       [\<lparr>q_id = [], q_text = ''Question?'',
          q_options =
            [\<lparr>o_id = ''opt1'', o_label = ''Option 1'', o_nextQuestionId = None,
               o_scores = [(''tech1'', 1)]\<rparr>]\<rparr>],
     results = [(''tech1'', mockResult1)]\<rparr>"

text \<open>
  Parsed tree files as \<open>validate\<close> receives them: one without a title, one that passes the
  first stage and has a problem for every later stage (a score that is a string, a
  \<open>scores\<close> that is a number, a reference to a missing question, a reference back to the
  question itself, a result without a name), and one whose question has no \<open>options\<close>.
  \<open>validateScoreBalance\<close> is not reached on the first and the third; on the second its
  only maximum is \<open>NaN\<close>, which exceeds no deviation, so it pushes no warning.
\<close>

definition jsonResult1 :: json where
  "jsonResult1 = JObj [(''name'', JStr ''Technology 1''), (''reasoning'', JStr ''Tech 1 is best''),
     (''tradeoffs'', JArr [JStr ''Tradeoff 1'']), (''whenToReconsider'', JStr ''When X happens''),
     (''bestFor'', JStr ''Use case A'')]"

definition untitledQuestions :: "json list" where
  "untitledQuestions =
     [JObj [(''id'', JStr ''q1''), (''text'', JStr []),
            (''options'', JArr
               [JObj [(''id'', JStr ''opt1''), (''label'', JStr ''Option 1''),
                      (''nextQuestionId'', JStr ''q7''),
                      (''scores'', JObj [(''tech1'', JNum ''1'')])]])]]"

definition untitledResults :: "(string \<times> json) list" where
  "untitledResults = [(''tech1'', jsonResult1)]"

definition untitledTree :: json where
  "untitledTree = JObj [(''id'', JStr ''untitled''), (''title'', JStr []),
     (''description'', JStr []), (''version'', JStr ''1.0.0''),
     (''questions'', JArr untitledQuestions), (''results'', JObj untitledResults)]"

definition brokenQuestions :: "json list" where
  "brokenQuestions =
     [JObj [(''id'', JStr ''q1''), (''text'', JStr []),
            (''options'', JArr
               [JObj [(''id'', JStr ''opt1''), (''label'', JStr ''Option 1''),
                      (''nextQuestionId'', JStr ''q7''),
                      (''scores'', JObj [(''tech1'', JStr ''high'')])],
                JObj [(''id'', JStr ''opt2''), (''label'', JStr ''Option 2''),
                      (''nextQuestionId'', JStr ''q1''),
                      (''scores'', JObj [])],
                JObj [(''id'', JStr ''opt3''), (''label'', JStr ''Option 3''),
                      (''nextQuestionId'', JNull),
                      (''scores'', JNum ''7'')]])]]"

definition brokenResults :: "(string \<times> json) list" where
  "brokenResults =
     [(''tech1'', JObj [(''name'', JStr []), (''reasoning'', JStr ''Tech 1 is best''),
        (''tradeoffs'', JArr [JStr ''Tradeoff 1'']),
        (''whenToReconsider'', JStr ''When X happens''), (''bestFor'', JStr ''Use case A'')])]"

definition brokenTree :: json where
  "brokenTree = JObj [(''id'', JStr ''broken''), (''title'', JStr ''Broken''),
     (''description'', JStr []), (''version'', JStr ''1.0.0''),
     (''questions'', JArr brokenQuestions), (''results'', JObj brokenResults)]"

definition optionlessQuestions :: "json list" where
  "optionlessQuestions = [JObj [(''id'', JStr ''q1''), (''text'', JStr ''Question?'')]]"

definition optionlessTree :: json where
  "optionlessTree = JObj [(''id'', JStr ''optionless''), (''title'', JStr ''No options''),
     (''description'', JStr []), (''version'', JStr ''1.0.0''),
     (''questions'', JArr optionlessQuestions), (''results'', JObj untitledResults)]"

section \<open>Notions used to state the properties\<close>

text \<open>
  The option an answer selects: \<open>questionMap.get(answer.questionId)\<close> followed by
  \<open>question.options.find(opt => opt.id === answer.optionId)\<close>.
\<close>

definition selects :: "DecisionTree \<Rightarrow> Answer \<Rightarrow> TreeOption option" where
  "selects tree a =
     (case questionMap tree (questionId a) of
        None \<Rightarrow> None
      | Some q \<Rightarrow> find (\<lambda>opt. o_id opt = optionId a) (q_options q))"

text \<open>
  \<open>legalSteps tree expected answers final\<close>: starting with \<open>expected\<close> as the expected
  question, each answer in order names the expected question and an existing option of it,
  the next expected question being that option's \<open>nextQuestionId\<close>; \<open>final\<close> is the
  \<open>nextQuestionId\<close> of the last selected option (\<open>None\<close> when it is terminal). The walk
  starts at \<open>entryQuestionId tree\<close>.
\<close>

fun legalSteps :: "DecisionTree \<Rightarrow> string option \<Rightarrow> Answer list \<Rightarrow> string option \<Rightarrow> bool" where
  "legalSteps tree expected [] final = (expected = final)"
| "legalSteps tree expected (a # rest) final =
     (expected = Some (questionId a) \<and>
      (case selects tree a of
         None \<Rightarrow> False
       | Some opt \<Rightarrow> legalSteps tree (o_nextQuestionId opt) rest final))"

text \<open>
  The options selected by the answers, the points one option contributes to a key, the keys
  some selected option mentions, and the mapping from each mentioned key to the sum of its
  contributions.
\<close>

definition selectedOptions :: "DecisionTree \<Rightarrow> Answer list \<Rightarrow> TreeOption list" where
  "selectedOptions tree answers = List.map_filter (selects tree) answers"

definition pointsFor :: "string \<Rightarrow> TreeOption \<Rightarrow> int" where
  "pointsFor k opt = sum_list (map snd (filter (\<lambda>e. fst e = k) (o_scores opt)))"

definition scoredKeys :: "TreeOption list \<Rightarrow> string set" where
  "scoredKeys opts = set (concat (map (\<lambda>opt. map fst (o_scores opt)) opts))"

definition summedScores :: "TreeOption list \<Rightarrow> string \<Rightarrow> int option" where
  "summedScores opts k =
     (if k \<in> scoredKeys opts then Some (sum_list (map (pointsFor k) opts)) else None)"

text \<open>The maximum score of a mapping, and its keys that reach it, in key order.\<close>

definition topScore :: "(string \<times> int) list \<Rightarrow> int" where
  "topScore scores = Max (snd ` set scores)"

definition tiedKeys :: "(string \<times> int) list \<Rightarrow> string list" where
  "tiedKeys scores = filter (\<lambda>k. map_of scores k = Some (topScore scores)) (map fst scores)"

text \<open>
  The thresholds of the confidence label; the score values that compete with the winner's
  score (those different from it, and it as well when at least two entries hold it); and
  the second highest score as the maximum of these values and 0.
\<close>

definition classify :: "int \<Rightarrow> Confidence" where
  "classify difference = (if difference \<ge> 5 then High else if difference \<ge> 2 then Medium else Low)"

definition competingScores :: "(string \<times> int) list \<Rightarrow> int \<Rightarrow> int set" where
  "competingScores scores winnerScore =
     set (filter (\<lambda>v. v \<noteq> winnerScore \<or> 2 \<le> length (filter (\<lambda>e. snd e = winnerScore) scores))
           (map snd scores))"

definition flooredSecondHighest :: "(string \<times> int) list \<Rightarrow> int \<Rightarrow> int" where
  "flooredSecondHighest scores winnerScore = Max (insert 0 (competingScores scores winnerScore))"

text \<open>
  The second highest score with 0 only as the default for an empty set of competing values.
\<close>

definition claimedSecondHighest :: "(string \<times> int) list \<Rightarrow> int \<Rightarrow> int" where
  "claimedSecondHighest scores winnerScore =
     (if competingScores scores winnerScore = {} then 0
      else Max (competingScores scores winnerScore))"

text \<open>\<open>scores[tech] || 0\<close>.\<close>

definition valOf :: "(string \<times> int) list \<Rightarrow> string \<Rightarrow> int" where
  "valOf acc k = (case map_of acc k of None \<Rightarrow> 0 | Some v \<Rightarrow> v)"

text \<open>
  No outcome key of the selected options is a name that every object inherits: for such a
  name \<open>scores[tech] || 0\<close> finds the inherited value in place of 0.
\<close>

definition ownKeysOnly :: "TreeOption list \<Rightarrow> bool" where
  "ownKeysOnly selected = (scoredKeys selected \<inter> set objectPrototypeNames = {})"

text \<open>
  The absolute values of the selected options' points sum to at most \<open>2 ^ 53\<close>: every
  partial sum of the points of a key is then an integer that a double holds, and every
  addition is exact.
\<close>

definition exactPoints :: "TreeOption list \<Rightarrow> bool" where
  "exactPoints selected =
     (sum_list (map (\<lambda>entry. \<bar>snd entry\<bar>) (concat (map o_scores selected))) \<le> 2 ^ 53)"

text \<open>Lists put in front of the lists of a report, and of a loop state that carries a report.\<close>

definition pre2 :: "'a list \<Rightarrow> 'b list \<Rightarrow> 'a list \<times> 'b list \<Rightarrow> 'a list \<times> 'b list" where
  "pre2 es ws report = (es @ fst report, ws @ snd report)"

definition pre3 ::
  "'a list \<Rightarrow> 'b list \<Rightarrow> 's \<times> 'a list \<times> 'b list \<Rightarrow> 's \<times> 'a list \<times> 'b list" where
  "pre3 es ws state = (fst state, es @ fst (snd state), ws @ snd (snd state))"

text \<open>
  The five later stages, each run on its own from empty lists: the first exception, or else
  the errors of the four stages that report errors, in their order, and the warnings
  likewise, with \<open>isValid\<close> true exactly when there is no error.
\<close>

definition stagesAlone ::
  "(json list \<Rightarrow> ValidationWarning list) \<Rightarrow> json list \<Rightarrow> container \<Rightarrow>
   Thrown + ValidationResult"
where
  "stagesAlone scoreBalanceWarnings treeQuestions treeResults =
     (case validateQuestions treeQuestions ([], []) of
        Inl e \<Rightarrow> Inl e
      | Inr (questionErrors, questionWarnings) \<Rightarrow>
     (case validateReferences treeQuestions treeResults [] of
        Inl e \<Rightarrow> Inl e
      | Inr referenceErrors \<Rightarrow>
     (case validateReachability treeQuestions ([], []) of
        Inl e \<Rightarrow> Inl e
      | Inr (reachabilityErrors, reachabilityWarnings) \<Rightarrow>
     (case validateResults treeResults ([], []) of
        Inl e \<Rightarrow> Inl e
      | Inr (resultErrors, resultWarnings) \<Rightarrow>
     (case validateScoreBalance scoreBalanceWarnings treeQuestions [] of
        Inl e \<Rightarrow> Inl e
      | Inr balanceWarnings \<Rightarrow>
          Inr \<lparr>vr_isValid =
                  (questionErrors @ referenceErrors @ reachabilityErrors @ resultErrors = []),
                vr_errors =
                  questionErrors @ referenceErrors @ reachabilityErrors @ resultErrors,
                vr_warnings =
                  questionWarnings @ reachabilityWarnings @ resultWarnings @
                  balanceWarnings\<rparr>)))))"

text \<open>The defining equations that evaluate the engine and the validator on a concrete input.\<close>

lemmas eval_defs = calculate_def validateAnswerPath_def questionMap_def
      entryQuestionId_def calculateScores_def scoreAnswer_def addPoints_def
      calculateConfidence_def breakTie_def show_nat.simps digit_def selects_def

lemmas validator_defs = validate_def validateBasicStructure_def checkedTree_def
  validateQuestions_def validateQuestionsStep_def validateOptions_def validateOptionsStep_def
  checkOptionId_def checkOptionLabel_def checkOptionScores_def checkScoreValues_def
  checkQuestionId_def checkQuestionText_def checkQuestionOptions_def
  checkNextQuestionId_def checkScoreKeys_def
  validateReferences_def validateReferencesOption_def validateReachability_def followed_def
  validateResults_def validateResultsStep_def validateScoreBalance_def scanScores_def
  mkError_def mkWarning_def trim_def isWhiteSpace_def show_nat.simps digit_def
  renderValue_def sameValue_def sameRef_def has_def scoreEntries_def containerEntries_def
  resultTruthy_def indexed_def objectPrototypeNames_def arrayPrototypeNames_def

section \<open>Path validation and score accumulation\<close>

lemma validateLoop_legalSteps:
  "legalSteps tree e answers final \<Longrightarrow> validateLoop (questionMap tree) e i answers = Inr final"
proof (induction answers arbitrary: e i)
  case Nil
  then show ?case by simp
next
  case (Cons a rest)
  from Cons.prems obtain opt where e: "e = Some (questionId a)"
    and sel: "selects tree a = Some opt"
    and rest: "legalSteps tree (o_nextQuestionId opt) rest final"
    by (auto split: option.splits)
  from sel obtain q where q: "questionMap tree (questionId a) = Some q"
    and f: "find (\<lambda>opt. o_id opt = optionId a) (q_options q) = Some opt"
    by (auto simp: selects_def split: option.splits)
  show ?case
  proof (cases "o_nextQuestionId opt")
    case None
    with rest have "rest = []" "final = None" by (cases rest; simp)+
    with e q f None show ?thesis by simp
  next
    case (Some n)
    with Cons.IH [OF rest, of "Suc i"] e q f show ?thesis by simp
  qed
qed

lemma validateAnswerPath_legalSteps:
  "answers \<noteq> [] \<Longrightarrow> legalSteps tree (entryQuestionId tree) answers final \<Longrightarrow>
   validateAnswerPath tree answers =
     (if final \<noteq> None
      then Inl (createError INVALID_ANSWER_PATH ''Answer path did not reach a valid end node'')
      else Inr ())"
  by (simp add: validateAnswerPath_def validateLoop_legalSteps)

lemma legalSteps_all_select:
  "legalSteps tree e answers final \<Longrightarrow> length (selectedOptions tree answers) = length answers"
  by (induction answers arbitrary: e) (auto simp: selectedOptions_def split: option.splits)

lemma map_of_addPoints:
  "map_of (addPoints acc e) k =
     (if fst e = k then Some (valOf acc k + snd e) else map_of acc k)"
  by (cases e) (simp add: addPoints_def AList.update_conv' valOf_def)

lemma map_of_fold_addPoints:
  "map_of (fold (\<lambda>entry s. addPoints s entry) es acc) k =
     (if k \<in> fst ` set es \<or> map_of acc k \<noteq> None
      then Some (valOf acc k + sum_list (map snd (filter (\<lambda>e. fst e = k) es)))
      else None)"
proof (induction es arbitrary: acc)
  case Nil
  then show ?case by (auto simp: valOf_def)
next
  case (Cons e es)
  show ?case
    by (simp add: Cons.IH map_of_addPoints) (auto simp: valOf_def map_of_addPoints)
qed

lemma distinct_addPoints:
  "distinct (map fst acc) \<Longrightarrow> distinct (map fst (addPoints acc e))"
  by (cases e) (simp add: addPoints_def AList.distinct_update)

lemma distinct_fold_addPoints:
  "distinct (map fst acc) \<Longrightarrow> distinct (map fst (fold (\<lambda>entry s. addPoints s entry) es acc))"
  by (induction es arbitrary: acc) (simp_all add: distinct_addPoints)

lemma fold_scoreAnswer_flat:
  "fold (\<lambda>answer s. scoreAnswer (questionMap tree) s answer) answers acc =
   fold (\<lambda>entry s. addPoints s entry) (concat (map o_scores (selectedOptions tree answers))) acc"
proof (induction answers arbitrary: acc)
  case Nil
  then show ?case by (simp add: selectedOptions_def List.map_filter_simps)
next
  case (Cons a answers)
  show ?case
    using Cons.IH
    by (auto simp: selectedOptions_def scoreAnswer_def selects_def split: option.splits)
qed

lemma calculateScores_flat:
  "calculateScores tree answers =
   fold (\<lambda>entry s. addPoints s entry) (concat (map o_scores (selectedOptions tree answers))) []"
  by (simp add: calculateScores_def fold_scoreAnswer_flat)

lemma sum_list_pointsFor:
  "sum_list (map (pointsFor k) opts) =
   sum_list (map snd (filter (\<lambda>e. fst e = k) (concat (map o_scores opts))))"
  by (induction opts) (simp_all add: pointsFor_def)

lemma map_of_calculateScores:
  "map_of (calculateScores tree answers) k = summedScores (selectedOptions tree answers) k"
  by (simp add: calculateScores_flat map_of_fold_addPoints summedScores_def scoredKeys_def
        sum_list_pointsFor valOf_def image_Union)

lemma distinct_calculateScores: "distinct (map fst (calculateScores tree answers))"
  by (simp add: calculateScores_flat distinct_fold_addPoints)

lemma scoredKeys_fst: "fst ` set (calculateScores tree answers) = scoredKeys (selectedOptions tree answers)"
proof -
  have "k \<in> fst ` set (calculateScores tree answers) \<longleftrightarrow> k \<in> scoredKeys (selectedOptions tree answers)" for k
    using map_of_calculateScores [of tree answers k]
    by (metis map_of_eq_None_iff option.distinct(1) summedScores_def)
  then show ?thesis by blast
qed

text \<open>
  Once a legal walk has reached a terminal option, \<open>validateAnswerPath\<close> does not read
  the answers that follow, and \<open>calculateScores\<close> adds the options they select.
\<close>

lemma validateLoop_trailing:
  "legalSteps tree e pre None \<Longrightarrow> pre \<noteq> [] \<Longrightarrow>
   validateLoop (questionMap tree) e i (pre @ trailing) = Inr None"
proof (induction pre arbitrary: e i)
  case Nil
  then show ?case by simp
next
  case (Cons a rest)
  from Cons.prems(1) obtain opt where e: "e = Some (questionId a)"
    and sel: "selects tree a = Some opt"
    and rest: "legalSteps tree (o_nextQuestionId opt) rest None"
    by (auto split: option.splits)
  from sel obtain q where q: "questionMap tree (questionId a) = Some q"
    and f: "find (\<lambda>opt. o_id opt = optionId a) (q_options q) = Some opt"
    by (auto simp: selects_def split: option.splits)
  show ?case
  proof (cases "o_nextQuestionId opt")
    case None
    with e q f show ?thesis by simp
  next
    case (Some n)
    with rest have "rest \<noteq> []" by (cases rest) auto
    with Cons.IH [OF rest, of "Suc i"] e q f Some show ?thesis by simp
  qed
qed

lemma validateAnswerPath_ignores_trailing:
  "pre \<noteq> [] \<Longrightarrow> legalSteps tree (entryQuestionId tree) pre None \<Longrightarrow>
   validateAnswerPath tree (pre @ trailing) = Inr ()"
  by (simp add: validateAnswerPath_def validateLoop_trailing)

lemma calculateScores_counts_trailing:
  "map_of (calculateScores tree (pre @ trailing)) k =
   summedScores (selectedOptions tree pre @ selectedOptions tree trailing) k"
  by (simp add: map_of_calculateScores selectedOptions_def map_filter_def)

section \<open>Winner determination and confidence\<close>

lemma fold_max_Max: "fold max (map snd rest) v = topScore ((k, v) # rest)"
  unfolding topScore_def using Max.set_eq_fold [of v "map snd rest"] by simp

lemma fold_max_zero: "fold max xs (0::int) = Max (insert 0 (set xs))"
  using Max.set_eq_fold [of 0 xs] by simp

lemma tiedKeys_entries_aux:
  "distinct (map fst scores) \<Longrightarrow> set es \<subseteq> set scores \<Longrightarrow>
   filter (\<lambda>k. map_of scores k = Some m) (map fst es) = map fst (filter (\<lambda>e. snd e = m) es)"
  by (induction es) (auto dest: eq_key_imp_eq_value)

lemma tiedKeys_entries:
  "distinct (map fst scores) \<Longrightarrow>
   tiedKeys scores = map fst (filter (\<lambda>e. snd e = topScore scores) scores)"
  unfolding tiedKeys_def by (rule tiedKeys_entries_aux) auto

lemma tiedKeys_nonempty:
  assumes "distinct (map fst scores)" "scores \<noteq> []"
  shows "tiedKeys scores \<noteq> []"
proof -
  have "topScore scores \<in> snd ` set scores"
    unfolding topScore_def using assms(2) by (intro Max_in) auto
  then obtain e where "e \<in> set scores" "snd e = topScore scores" by auto
  then have "filter (\<lambda>e. snd e = topScore scores) scores \<noteq> []"
    by (auto simp: filter_empty_conv)
  then show ?thesis by (simp add: tiedKeys_entries [OF assms(1)])
qed

lemma tiedKeys_top:
  "k \<in> set (tiedKeys scores) \<Longrightarrow> map_of scores k = Some (topScore scores)"
  by (simp add: tiedKeys_def)


lemma tiedKeys_subset: "set (tiedKeys scores) \<subseteq> fst ` set scores"
  by (auto simp: tiedKeys_def)

lemma determineWinner_unfold:
  assumes "scores \<noteq> []"
  shows "determineWinner scores tree =
     (case tiedKeys scores of
        [w] \<Rightarrow> Inr (w, None)
      | _ \<Rightarrow> (case breakTie (tiedKeys scores) scores tree of
                (winner, explanation) \<Rightarrow> Inr (winner, Some explanation)))"
proof (cases scores)
  case Nil
  with assms show ?thesis by simp
next
  case (Cons e rest)
  obtain k v where e: "e = (k, v)" by (cases e)
  have m: "fold max (map snd rest) v = topScore ((k, v) # rest)"
    by (rule fold_max_Max)
  show ?thesis
    unfolding Cons e tiedKeys_def
    by (simp only: determineWinner.simps Let_def m)
qed

lemma sort_hd_least:
  "sort xs = w # ws \<Longrightarrow> w \<in> set xs \<and> (\<forall>y \<in> set xs. w \<le> y)"
proof -
  assume a: "sort xs = w # ws"
  have s: "sorted (w # ws)" using sorted_sort [of xs] a by simp
  have e: "set (w # ws) = set xs" using set_sort [of "\<lambda>x. x" xs] a by simp
  from s e show ?thesis by auto
qed

lemma breakTie_in_tied:
  "tied \<noteq> [] \<Longrightarrow> fst (breakTie tied scores tree) \<in> set tied"
proof -
  assume ne: "tied \<noteq> []"
  then have "sort tied \<noteq> []" by (metis length_sort length_0_conv)
  then obtain w ws where s: "sort tied = w # ws" by (cases "sort tied") auto
  with sort_hd_least have w: "w \<in> set tied" by blast
  let ?wr = "filter (\<lambda>tech. map_of (results tree) tech \<noteq> None) tied"
  show ?thesis
  proof (cases "\<exists>x. ?wr = [x]")
    case True
    then obtain x where x: "?wr = [x]" by blast
    then have "x \<in> set ?wr" by simp
    then have "x \<in> set tied" by simp
    with x show ?thesis by (simp add: breakTie_def)
  next
    case False
    then show ?thesis using s w
      by (auto simp: breakTie_def Let_def split: list.splits)
  qed
qed

lemma determineWinner_in_tied:
  assumes "distinct (map fst scores)" "determineWinner scores tree = Inr (w, tb)"
  shows "w \<in> set (tiedKeys scores)"
proof -
  from assms(2) have ne: "scores \<noteq> []" by (cases scores) auto
  have t: "tiedKeys scores \<noteq> []" by (rule tiedKeys_nonempty [OF assms(1) ne])
  show ?thesis
  proof (cases "\<exists>x. tiedKeys scores = [x]")
    case True
    then show ?thesis using assms(2) by (auto simp: determineWinner_unfold [OF ne])
  next
    case False
    then have "determineWinner scores tree =
      Inr (fst (breakTie (tiedKeys scores) scores tree), Some (snd (breakTie (tiedKeys scores) scores tree)))"
      by (auto simp: determineWinner_unfold [OF ne] split: list.splits prod.splits)
    with assms(2) have "w = fst (breakTie (tiedKeys scores) scores tree)" by simp
    with breakTie_in_tied [OF t] show ?thesis by simp
  qed
qed

lemma determineWinner_Inr:
  assumes "distinct (map fst scores)" "scores \<noteq> []"
  shows "\<exists>w tb. determineWinner scores tree = Inr (w, tb) \<and> w \<in> set (tiedKeys scores)"
proof -
  have "\<exists>w tb. determineWinner scores tree = Inr (w, tb)"
    by (auto simp: determineWinner_unfold [OF assms(2)] split: list.splits prod.splits)
  then show ?thesis using determineWinner_in_tied [OF assms(1)] by blast
qed

lemma breakTie_all_documented:
  assumes "2 \<le> length tied" "\<forall>k \<in> set tied. map_of (results tree) k \<noteq> None"
  shows "\<exists>w. breakTie tied scores tree =
           (w, ''Tied with '' @ show_nat (length tied) @ '' options ('' @
               join '', '' tied @ ''). '' @
               ''Consider reviewing your requirements - both may be equally suitable.'') \<and>
         w \<in> set tied \<and> (\<forall>k \<in> set tied. w \<le> k)"
proof -
  have wr: "filter (\<lambda>tech. map_of (results tree) tech \<noteq> None) tied = tied"
    using assms(2) by (simp add: filter_id_conv)
  have "sort tied \<noteq> []" using assms(1) by (metis length_sort list.size(3) not_numeral_le_zero)
  then obtain w ws where s: "sort tied = w # ws" by (cases "sort tied") auto
  obtain a b rest where t: "tied = a # b # rest"
    using assms(1) by (cases tied; cases "tl tied") auto
  have "breakTie tied scores tree =
           (w, ''Tied with '' @ show_nat (length tied) @ '' options ('' @
               join '', '' tied @ ''). '' @
               ''Consider reviewing your requirements - both may be equally suitable.'')"
    unfolding breakTie_def wr Let_def s by (simp add: t)
  with sort_hd_least [OF s] show ?thesis by blast
qed

lemma breakTie_documentation:
  assumes "breakTie tied scores tree = (w, ''Selected based on available documentation and guidance'')"
  shows "map_of (results tree) w \<noteq> None"
proof -
  let ?wr = "filter (\<lambda>tech. map_of (results tree) tech \<noteq> None) tied"
  show ?thesis
  proof (cases "\<exists>x. ?wr = [x]")
    case True
    then obtain x where x: "?wr = [x]" by blast
    with assms have "w = x" by (simp add: breakTie_def)
    moreover from x have "x \<in> set ?wr" by simp
    ultimately show ?thesis by simp
  next
    case False
    then have "snd (breakTie tied scores tree) =
        ''Tied with '' @ show_nat (length tied) @ '' options ('' @
                join '', '' tied @ ''). '' @
                ''Consider reviewing your requirements - both may be equally suitable.''"
      by (auto simp: breakTie_def Let_def split: list.splits)
    with assms show ?thesis by simp
  qed
qed

lemma determineWinner_documentation:
  assumes "determineWinner scores tree =
             Inr (w, Some ''Selected based on available documentation and guidance'')"
  shows "map_of (results tree) w \<noteq> None"
proof -
  from assms have ne: "scores \<noteq> []" by (cases scores) auto
  from assms have "breakTie (tiedKeys scores) scores tree =
      (w, ''Selected based on available documentation and guidance'')"
    unfolding determineWinner_unfold [OF ne]
    by (auto split: list.splits prod.splits)
  then show ?thesis by (rule breakTie_documentation)
qed

lemma count_values: "length (filter (\<lambda>sv. sv = m) (map snd scores)) = length (filter (\<lambda>e. snd e = m) scores)"
  by (induction scores) auto

lemma calculateConfidence_floored:
  assumes "map_of scores winner = Some winnerScore"
  shows "calculateConfidence scores winner =
         classify (winnerScore - flooredSecondHighest scores winnerScore)"
proof -
  have cnt: "(1 < length (filter (\<lambda>sv. sv = winnerScore) (map snd scores))) =
             (2 \<le> length (filter (\<lambda>e. snd e = winnerScore) scores))"
    using count_values [of winnerScore scores] by arith
  show ?thesis
    by (simp only: calculateConfidence_def Let_def assms option.case cnt fold_max_zero
        classify_def flooredSecondHighest_def competingScores_def)
qed

lemma calculateConfidence_tie:
  assumes "distinct (map fst scores)" "2 \<le> length (tiedKeys scores)" "w \<in> set (tiedKeys scores)"
  shows "calculateConfidence scores w = Low"
proof -
  let ?m = "topScore scores"
  have top: "map_of scores w = Some ?m" using assms(3) by (rule tiedKeys_top)
  have cnt: "2 \<le> length (filter (\<lambda>e. snd e = ?m) scores)"
    using assms(2) by (simp add: tiedKeys_entries [OF assms(1)])
  have mem: "?m \<in> competingScores scores ?m"
  proof -
    have "(w, ?m) \<in> set scores" using top by (rule map_of_SomeD)
    then have "?m \<in> snd ` set scores" by force
    with cnt show ?thesis by (auto simp: competingScores_def)
  qed
  have "finite (insert 0 (competingScores scores ?m))" by (simp add: competingScores_def)
  then have "?m \<le> flooredSecondHighest scores ?m"
    unfolding flooredSecondHighest_def using mem by (intro Max_ge) auto
  then show ?thesis
    by (simp add: calculateConfidence_floored [OF top] classify_def)
qed

lemma calculate_InrD:
  "calculate tree answers = Inr r \<Longrightarrow>
   \<exists>w tb res. validateAnswerPath tree answers = Inr () \<and>
     determineWinner (calculateScores tree answers) tree = Inr (w, tb) \<and>
     map_of (results tree) w = Some res \<and>
     r = \<lparr>rr_recommendation = w, rr_scores = calculateScores tree answers, rr_result = res,
          rr_answers = answers, rr_tieBreaker = tb,
          rr_confidence = calculateConfidence (calculateScores tree answers) w\<rparr>"
  by (auto simp: calculate_def Let_def split: sum.splits option.splits prod.splits)

lemma calculate_after_winner:
  "validateAnswerPath tree answers = Inr () \<Longrightarrow>
   determineWinner (calculateScores tree answers) tree = Inr (w, tb) \<Longrightarrow>
   calculate tree answers =
     (case map_of (results tree) w of
        None \<Rightarrow> Inl (plainError (''Result not found for technology: '' @ w))
      | Some res \<Rightarrow>
          Inr \<lparr>rr_recommendation = w, rr_scores = calculateScores tree answers, rr_result = res,
               rr_answers = answers, rr_tieBreaker = tb,
               rr_confidence = calculateConfidence (calculateScores tree answers) w\<rparr>)"
  by (simp add: calculate_def Let_def)

section \<open>The validator only appends to its two lists\<close>

text \<open>
  Every stage treats the lists it is given as a prefix that it never reads: run after lists
  \<open>es\<close> and \<open>ws\<close> it throws exactly when it throws from empty lists, and else returns
  what it returns from empty lists behind \<open>es\<close> and \<open>ws\<close>.
\<close>

lemma foldE_commute:
  assumes "\<And>x s. f x (g s) = map_sum id g (f x s)"
  shows "foldE f xs (g s) = map_sum id g (foldE f xs s)"
proof (induction xs arbitrary: s)
  case Nil
  show ?case by simp
next
  case (Cons x xs)
  show ?case by (cases "f x s") (simp_all add: assms Cons.IH)
qed

lemma fold_commute:
  assumes "\<And>x s. f x (g s) = g (f x s)"
  shows "fold f xs (g s) = g (fold f xs s)"
  by (induction xs arbitrary: s) (simp_all add: assms)

lemma checkOptionId_commute:
  "checkOptionId loc opt (ids, es @ e0) =
     map_sum id (\<lambda>r. (fst r, es @ snd r)) (checkOptionId loc opt (ids, e0))"
  by (simp add: checkOptionId_def split: sum.splits)

lemma checkOptionLabel_commute:
  "checkOptionLabel loc opt (es @ e0) = map_sum id ((@) es) (checkOptionLabel loc opt e0)"
  by (simp add: checkOptionLabel_def split: option.splits json.splits)

lemma checkOptionScores_commute:
  "checkOptionScores loc opt (es @ e0, ws @ w0) = pre2 es ws (checkOptionScores loc opt (e0, w0))"
  by (simp add: checkOptionScores_def pre2_def)

lemma checkScoreValues_commute:
  "checkScoreValues loc opt (es @ e0) = es @ checkScoreValues loc opt e0"
proof (cases "truthy (getField opt ''scores'')")
  case True
  then show ?thesis
    unfolding checkScoreValues_def if_P [OF True]
    by (intro fold_commute [where g = "(@) es"]) (simp split: prod.splits)
next
  case False
  then show ?thesis by (simp add: checkScoreValues_def)
qed

lemma validateOptionsStep_commute:
  "validateOptionsStep loc x (pre3 es ws s) = map_sum id (pre3 es ws) (validateOptionsStep loc x s)"
proof -
  obtain index option where x: "x = (index, option)" by (cases x)
  obtain ids e0 w0 where s: "s = (ids, e0, w0)" by (cases s)
  define location where "location = loc @ ''.options['' @ show_nat index @ '']''"
  show ?thesis
  proof (cases "option = JNull")
    case True
    then show ?thesis by (simp add: x s validateOptionsStep_def pre3_def)
  next
    case False
    show ?thesis
    proof (cases "checkOptionId location option (ids, e0)")
      case (Inl e)
      then show ?thesis
        using False checkOptionId_commute [of location option ids es e0]
        by (simp add: x s validateOptionsStep_def pre3_def location_def)
    next
      case (Inr a)
      obtain ids1 e1 where a: "a = (ids1, e1)" by (cases a)
      have i: "checkOptionId location option (ids, es @ e0) = Inr (ids1, es @ e1)"
        using Inr a checkOptionId_commute [of location option ids es e0] by simp
      show ?thesis
      proof (cases "checkOptionLabel location option e1")
        case (Inl e)
        then have "checkOptionLabel location option (es @ e1) = Inl e"
          using checkOptionLabel_commute [of location option es e1] by simp
        with Inl Inr a i False show ?thesis
          by (simp add: x s validateOptionsStep_def pre3_def location_def)
      next
        case l: (Inr e2)
        then have l': "checkOptionLabel location option (es @ e1) = Inr (es @ e2)"
          using checkOptionLabel_commute [of location option es e1] by simp
        obtain e3 w1 where c: "checkOptionScores location option (e2, w0) = (e3, w1)"
          by (cases "checkOptionScores location option (e2, w0)")
        have c': "checkOptionScores location option (es @ e2, ws @ w0) = (es @ e3, ws @ w1)"
          using checkOptionScores_commute [of location option es e2 ws w0] c by (simp add: pre2_def)
        have v: "checkScoreValues location option (es @ e3) = es @ checkScoreValues location option e3"
          by (rule checkScoreValues_commute)
        from False Inr a i l l' c c' v show ?thesis
          by (simp add: x s validateOptionsStep_def pre3_def location_def)
      qed
    qed
  qed
qed

lemma validateOptions_commute:
  "validateOptions opts loc (pre2 es ws report) =
     map_sum id (pre2 es ws) (validateOptions opts loc report)"
proof -
  have "foldE (validateOptionsStep loc) (enumerate 0 opts) (pre3 es ws ([], report)) =
        map_sum id (pre3 es ws) (foldE (validateOptionsStep loc) (enumerate 0 opts) ([], report))"
    by (rule foldE_commute) (rule validateOptionsStep_commute)
  moreover have "pre3 es ws ([], report) = ([], pre2 es ws report)"
    by (simp add: pre3_def pre2_def)
  ultimately show ?thesis
    by (cases "foldE (validateOptionsStep loc) (enumerate 0 opts) ([], report)")
       (auto simp: validateOptions_def pre3_def pre2_def)
qed

lemma checkQuestionId_commute:
  "checkQuestionId loc q (ids, es @ e0) =
     map_sum id (\<lambda>r. (fst r, es @ snd r)) (checkQuestionId loc q (ids, e0))"
  by (simp add: checkQuestionId_def split: sum.splits)

lemma checkQuestionText_commute:
  "checkQuestionText loc q (es @ e0) = map_sum id ((@) es) (checkQuestionText loc q e0)"
  by (simp add: checkQuestionText_def split: option.splits json.splits)

lemma checkQuestionOptions_commute:
  "checkQuestionOptions loc q (es @ e0, ws @ w0) =
     map_sum id (pre2 es ws) (checkQuestionOptions loc q (e0, w0))"
proof -
  have v: "validateOptions opts loc (es @ e0, ws @ w0) =
           map_sum id (pre2 es ws) (validateOptions opts loc (e0, w0))" for opts
    using validateOptions_commute [of opts loc es ws "(e0, w0)"] by (simp add: pre2_def)
  show ?thesis
    by (simp add: checkQuestionOptions_def v split: option.splits json.splits)
       (simp add: pre2_def)
qed

lemma validateQuestionsStep_commute:
  "validateQuestionsStep x (pre3 es ws s) = map_sum id (pre3 es ws) (validateQuestionsStep x s)"
proof -
  obtain index question where x: "x = (index, question)" by (cases x)
  obtain ids e0 w0 where s: "s = (ids, e0, w0)" by (cases s)
  define location where "location = ''questions['' @ show_nat index @ '']''"
  show ?thesis
  proof (cases "question = JNull")
    case True
    then show ?thesis by (simp add: x s validateQuestionsStep_def pre3_def)
  next
    case False
    show ?thesis
    proof (cases "checkQuestionId location question (ids, e0)")
      case (Inl e)
      then show ?thesis
        using False checkQuestionId_commute [of location question ids es e0]
        by (simp add: x s validateQuestionsStep_def pre3_def location_def)
    next
      case (Inr a)
      obtain ids1 e1 where a: "a = (ids1, e1)" by (cases a)
      have i: "checkQuestionId location question (ids, es @ e0) = Inr (ids1, es @ e1)"
        using Inr a checkQuestionId_commute [of location question ids es e0] by simp
      show ?thesis
      proof (cases "checkQuestionText location question e1")
        case (Inl e)
        then have "checkQuestionText location question (es @ e1) = Inl e"
          using checkQuestionText_commute [of location question es e1] by simp
        with Inl Inr a i False show ?thesis
          by (simp add: x s validateQuestionsStep_def pre3_def location_def)
      next
        case l: (Inr e2)
        then have l': "checkQuestionText location question (es @ e1) = Inr (es @ e2)"
          using checkQuestionText_commute [of location question es e1] by simp
        show ?thesis
        proof (cases "checkQuestionOptions location question (e2, w0)")
          case (Inl e)
          then have "checkQuestionOptions location question (es @ e2, ws @ w0) = Inl e"
            using checkQuestionOptions_commute [of location question es e2 ws w0] by simp
          with Inl Inr a i l l' False show ?thesis
            by (simp add: x s validateQuestionsStep_def pre3_def location_def)
        next
          case o: (Inr b)
          obtain e3 w1 where b: "b = (e3, w1)" by (cases b)
          have o': "checkQuestionOptions location question (es @ e2, ws @ w0) =
                    Inr (es @ e3, ws @ w1)"
            using checkQuestionOptions_commute [of location question es e2 ws w0] o b
            by (simp add: pre2_def)
          from False Inr a i l l' o b o' show ?thesis
            by (simp add: x s validateQuestionsStep_def pre3_def location_def)
        qed
      qed
    qed
  qed
qed

lemma validateQuestions_commute:
  "validateQuestions qs (pre2 es ws report) = map_sum id (pre2 es ws) (validateQuestions qs report)"
proof -
  have "foldE validateQuestionsStep (enumerate 0 qs) (pre3 es ws ([], report)) =
        map_sum id (pre3 es ws) (foldE validateQuestionsStep (enumerate 0 qs) ([], report))"
    by (rule foldE_commute) (rule validateQuestionsStep_commute)
  moreover have "pre3 es ws ([], report) = ([], pre2 es ws report)"
    by (simp add: pre3_def pre2_def)
  ultimately show ?thesis
    by (cases "foldE validateQuestionsStep (enumerate 0 qs) ([], report)")
       (auto simp: validateQuestions_def pre3_def pre2_def)
qed

lemma checkNextQuestionId_commute:
  "checkNextQuestionId ids loc q opt (es @ e0) =
     map_sum id ((@) es) (checkNextQuestionId ids loc q opt e0)"
  by (simp add: checkNextQuestionId_def split: sum.splits)

lemma checkScoreKeys_commute:
  "checkScoreKeys rs loc opt (es @ e0) = es @ checkScoreKeys rs loc opt e0"
proof (cases "truthy (getField opt ''scores'')")
  case True
  then show ?thesis
    unfolding checkScoreKeys_def if_P [OF True]
    by (intro fold_commute [where g = "(@) es"]) simp
next
  case False
  then show ?thesis by (simp add: checkScoreKeys_def)
qed

lemma validateReferencesOption_commute:
  "validateReferencesOption rs ids qi q x (es @ e0) =
     map_sum id ((@) es) (validateReferencesOption rs ids qi q x e0)"
proof -
  obtain oi opt where x: "x = (oi, opt)" by (cases x)
  define location where
    "location = ''questions['' @ show_nat qi @ ''].options['' @ show_nat oi @ '']''"
  show ?thesis
  proof (cases "checkNextQuestionId ids location q opt e0")
    case (Inl e)
    then show ?thesis
      using checkNextQuestionId_commute [of ids location q opt es e0]
      by (simp add: x validateReferencesOption_def location_def)
  next
    case (Inr e1)
    then have "checkNextQuestionId ids location q opt (es @ e0) = Inr (es @ e1)"
      using checkNextQuestionId_commute [of ids location q opt es e0] by simp
    with Inr checkScoreKeys_commute [of rs location opt es e1] show ?thesis
      by (simp add: x validateReferencesOption_def location_def)
  qed
qed

lemma validateReferences_commute:
  "validateReferences qs rs (es @ e0) = map_sum id ((@) es) (validateReferences qs rs e0)"
proof (cases "JNull \<in> set qs")
  case True
  then show ?thesis by (simp add: validateReferences_def)
next
  case False
  have "foldE (\<lambda>qEntry es.
                 case qEntry of (qIndex, question) \<Rightarrow>
                   (case getField question ''options'' of
                      Some (JArr opts) \<Rightarrow>
                        foldE (validateReferencesOption rs (map (\<lambda>q. getField q ''id'') qs)
                                 qIndex question)
                          (enumerate 0 opts) es
                    | _ \<Rightarrow> Inl TypeError))
          (enumerate 0 qs) (es @ e0) =
        map_sum id ((@) es)
         (foldE (\<lambda>qEntry es.
                 case qEntry of (qIndex, question) \<Rightarrow>
                   (case getField question ''options'' of
                      Some (JArr opts) \<Rightarrow>
                        foldE (validateReferencesOption rs (map (\<lambda>q. getField q ''id'') qs)
                                 qIndex question)
                          (enumerate 0 opts) es
                    | _ \<Rightarrow> Inl TypeError))
          (enumerate 0 qs) e0)"
  proof (rule foldE_commute [where g = "(@) es"])
    fix x :: "nat \<times> json" and s :: "ValidationError list"
    obtain qi q where x: "x = (qi, q)" by (cases x)
    have inner: "foldE (validateReferencesOption rs (map (\<lambda>q. getField q ''id'') qs) qi q)
                   ys (es @ s) =
                 map_sum id ((@) es)
                   (foldE (validateReferencesOption rs (map (\<lambda>q. getField q ''id'') qs) qi q)
                      ys s)" for ys
      by (rule foldE_commute [where g = "(@) es"]) (rule validateReferencesOption_commute)
    show "(case x of (qIndex, question) \<Rightarrow>
             (case getField question ''options'' of
                Some (JArr opts) \<Rightarrow>
                  foldE (validateReferencesOption rs (map (\<lambda>q. getField q ''id'') qs)
                           qIndex question)
                    (enumerate 0 opts) (es @ s)
              | _ \<Rightarrow> Inl TypeError)) =
          map_sum id ((@) es)
           (case x of (qIndex, question) \<Rightarrow>
             (case getField question ''options'' of
                Some (JArr opts) \<Rightarrow>
                  foldE (validateReferencesOption rs (map (\<lambda>q. getField q ''id'') qs)
                           qIndex question)
                    (enumerate 0 opts) s
              | _ \<Rightarrow> Inl TypeError))"
      unfolding x prod.case by (simp add: inner split: option.splits json.splits)
  qed
  with False show ?thesis by (simp add: validateReferences_def Let_def)
qed

lemma validateResultsStep_commute:
  "validateResultsStep x (pre2 es ws report) = map_sum id (pre2 es ws) (validateResultsStep x report)"
  by (cases x; cases report) (simp add: validateResultsStep_def Let_def pre2_def)

lemma validateResults_commute:
  "validateResults rs (pre2 es ws report) = map_sum id (pre2 es ws) (validateResults rs report)"
proof -
  obtain e0 w0 where r: "report = (e0, w0)" by (cases report)
  have f: "foldE validateResultsStep xs (pre2 es ws report) =
           map_sum id (pre2 es ws) (foldE validateResultsStep xs report)" for xs
    by (rule foldE_commute) (rule validateResultsStep_commute)
  show ?thesis
  proof (cases "containerEntries rs = []")
    case True
    then show ?thesis by (simp add: validateResults_def r pre2_def)
  next
    case False
    with f [of "containerEntries rs"] show ?thesis
      by (simp add: validateResults_def r pre2_def)
  qed
qed

lemma validateScoreBalance_commute:
  "validateScoreBalance sb qs (ws @ w0) = map_sum id ((@) ws) (validateScoreBalance sb qs w0)"
  by (simp add: validateScoreBalance_def split: sum.splits)

lemma dfs_commute:
  "dfs qs pending visited reachable (es @ e0) =
     map_sum id (\<lambda>r. (fst r, fst (snd r), es @ snd (snd r)))
       (dfs qs pending visited reachable e0)"
proof (induction qs pending visited reachable e0 rule: dfs.induct)
  case (1 treeQuestions visited reachable errors)
  show ?case by simp
next
  case (2 treeQuestions current path pending visited reachable errors)
  show ?case
  proof (cases "list_ex (sameRef current) visited")
    case True
    show ?thesis
    proof (cases "list_ex (sameRef current) path")
      case inPath: True
      show ?thesis
      proof (cases "joinArrow (map fst (path @ [current]))")
        case (Inl e)
        with True inPath show ?thesis by simp
      next
        case (Inr rendered)
        from "2.IH"(1) [OF True inPath Inr] True inPath Inr show ?thesis by simp
      qed
    next
      case False
      from "2.IH"(2) [OF True False] True False show ?thesis by simp
    qed
  next
    case False
    show ?thesis
    proof (cases "findQuestion (enumerate 0 treeQuestions) current")
      case (Inl e)
      with False show ?thesis by simp
    next
      case (Inr found)
      show ?thesis
      proof (cases found)
        case None
        from "2.IH"(3) [OF False Inr None] False Inr None show ?thesis by simp
      next
        case (Some entry)
        obtain j question where entry: "entry = (j, question)" by (cases entry)
        show ?thesis
        proof (cases "truthy (Some question)")
          case falsy: False
          from "2.IH"(4) [OF False Inr Some entry [symmetric]] falsy False Inr Some entry
          show ?thesis by simp
        next
          case True
          show ?thesis
          proof (cases "followed j question")
            case (Inl e)
            with False Inr Some entry True show ?thesis by simp
          next
            case nexts: (Inr nexts)
            from "2.IH"(5) [OF False Inr Some entry [symmetric] _ nexts] True
              False Inr Some entry nexts
            show ?thesis by simp
          qed
        qed
      qed
    qed
  qed
qed

lemma validateReachability_commute:
  "validateReachability qs (pre2 es ws report) =
     map_sum id (pre2 es ws) (validateReachability qs report)"
proof -
  obtain e0 w0 where r: "report = (e0, w0)" by (cases report)
  define start where "start = [((getField (qs ! 0) ''id'', QuestionId 0), [] :: idRef list)]"
  define W where "W = (\<lambda>(r :: idRef) ws.
                         case renderValue (fst r) of
                           Inl e \<Rightarrow> Inl e
                         | Inr rendered \<Rightarrow>
                             Inr (ws @ [mkWarning ''UNREACHABLE_QUESTION''
                                    (''Question '' @ [CHR 0x22] @ rendered @ [CHR 0x22] @
                                     '' is not reachable from the starting question'')
                                    None]))"
  have W: "foldE W us (ws @ ys) = map_sum id ((@) ws) (foldE W us ys)" for us ys
    by (rule foldE_commute [where g = "(@) ws"]) (simp add: W_def split: sum.splits)
  show ?thesis
  proof (cases "length qs = 0 \<or> qs ! 0 = JNull")
    case True
    then show ?thesis by (auto simp: validateReachability_def r pre2_def)
  next
    case False
    then have ne: "length qs \<noteq> 0" and nn: "qs ! 0 \<noteq> JNull" by simp_all
    show ?thesis
    proof (cases "dfs qs start [] [] e0")
      case (Inl e)
      then have "dfs qs start [] [] (es @ e0) = Inl e"
        using dfs_commute [of qs start "[]" "[]" es e0] by simp
      with Inl ne nn show ?thesis
        unfolding validateReachability_def r pre2_def fst_conv snd_conv prod.case
          start_def [symmetric]
        by (simp only: if_False sum.case map_sum.simps id_apply)
    next
      case (Inr a)
      obtain v rc e1 where a: "a = (v, rc, e1)" by (cases a)
      have d: "dfs qs start [] [] (es @ e0) = Inr (v, rc, es @ e1)"
        using dfs_commute [of qs start "[]" "[]" es e0] Inr a by simp
      have d0: "dfs qs start [] [] e0 = Inr (v, rc, e1)"
        using Inr a by simp
      define U where "U = filter (\<lambda>r. \<not> list_ex (sameRef r) rc)
                            (map (\<lambda>qEntry. case qEntry of (j, q) \<Rightarrow>
                                    (getField q ''id'', QuestionId j))
                                 (enumerate 0 qs))"
      have l: "validateReachability qs (es @ e0, ws @ w0) =
               (if JNull \<in> set qs then Inl TypeError
                else (case foldE W U (ws @ w0) of
                        Inl e \<Rightarrow> Inl e
                      | Inr warnings1 \<Rightarrow> Inr (es @ e1, warnings1)))"
        unfolding validateReachability_def prod.case start_def [symmetric] Let_def
          W_def [symmetric]
        by (simp only: ne nn if_False d sum.case prod.case U_def [symmetric])
      have rr: "validateReachability qs (e0, w0) =
               (if JNull \<in> set qs then Inl TypeError
                else (case foldE W U w0 of
                        Inl e \<Rightarrow> Inl e
                      | Inr warnings1 \<Rightarrow> Inr (e1, warnings1)))"
        unfolding validateReachability_def prod.case start_def [symmetric] Let_def
          W_def [symmetric]
        by (simp only: ne nn if_False d0 sum.case prod.case U_def [symmetric])
      show ?thesis
        unfolding r pre2_def fst_conv snd_conv l rr W
        by (cases "foldE W U w0") simp_all
    qed
  qed
qed

lemma basic_ok_checked:
  "validateBasicStructure tree [] = [] \<Longrightarrow> \<exists>qs rs. checkedTree tree = Some (qs, rs)"
  by (auto simp: validateBasicStructure_def checkedTree_def Let_def
           split: option.splits if_splits json.splits)

lemma validate_stagesAlone:
  assumes "validateBasicStructure tree [] = []" and "checkedTree tree = Some (qs, rs)"
  shows "validate sb tree = stagesAlone sb qs rs"
proof (cases "validateQuestions qs ([], [])")
  case (Inl e)
  with assms show ?thesis by (simp add: validate_def stagesAlone_def)
next
  case (Inr a)
  obtain qe qw where q: "validateQuestions qs ([], []) = Inr (qe, qw)"
    using Inr by (cases a) simp
  have f: "validateReferences qs rs qe = map_sum id ((@) qe) (validateReferences qs rs [])"
    using validateReferences_commute [of qs rs qe "[]"] by simp
  show ?thesis
  proof (cases "validateReferences qs rs []")
    case (Inl e)
    with assms q f show ?thesis by (simp add: validate_def stagesAlone_def)
  next
    case fe: (Inr fe)
    have r: "validateReachability qs (qe @ fe, qw) =
             map_sum id (pre2 (qe @ fe) qw) (validateReachability qs ([], []))"
      using validateReachability_commute [of qs "qe @ fe" qw "([], [])"] by (simp add: pre2_def)
    show ?thesis
    proof (cases "validateReachability qs ([], [])")
      case (Inl e)
      with assms q f fe r show ?thesis by (simp add: validate_def stagesAlone_def)
    next
      case rb: (Inr b)
      obtain re rw where rb': "validateReachability qs ([], []) = Inr (re, rw)"
        using rb by (cases b) simp
      have s: "validateResults rs (qe @ fe @ re, qw @ rw) =
               map_sum id (pre2 (qe @ fe @ re) (qw @ rw)) (validateResults rs ([], []))"
        using validateResults_commute [of rs "qe @ fe @ re" "qw @ rw" "([], [])"]
        by (simp add: pre2_def)
      show ?thesis
      proof (cases "validateResults rs ([], [])")
        case (Inl e)
        with assms q f fe r rb' s show ?thesis
          by (simp add: validate_def stagesAlone_def pre2_def)
      next
        case sc: (Inr c)
        obtain se sw where sc': "validateResults rs ([], []) = Inr (se, sw)"
          using sc by (cases c) simp
        have b: "validateScoreBalance sb qs (qw @ rw @ sw) =
                 map_sum id ((@) (qw @ rw @ sw)) (validateScoreBalance sb qs [])"
          using validateScoreBalance_commute [of sb qs "qw @ rw @ sw" "[]"] by simp
        show ?thesis
        proof (cases "validateScoreBalance sb qs []")
          case (Inl e)
          with assms q f fe r rb' s sc' b show ?thesis
            by (simp add: validate_def stagesAlone_def pre2_def)
        next
          case (Inr bw)
          with assms q f fe r rb' s sc' b show ?thesis
            by (simp add: validate_def stagesAlone_def pre2_def)
        qed
      qed
    qed
  qed
qed

lemma stagesAlone_isValid:
  "stagesAlone sb qs rs = Inr r \<Longrightarrow> vr_isValid r = (vr_errors r = [])"
  by (auto simp: stagesAlone_def split: sum.splits prod.splits)

section \<open>Properties of the specification\<close>

text \<open>
  C1. Answers after the first terminal option are meant to be left alone: neither validated
  nor scored. \<open>validateAnswerPath\<close> leaves its loop at the terminal option, but
  \<open>calculateScores\<close> runs over the whole answer list. On the test suite's tree, \<open>opt2\<close>
  of \<open>q1\<close> is terminal; the two answers after it are not validated (they name \<open>q1\<close> again)
  and yet they are scored: the scores are \<open>tech1: 7, tech2: 5\<close> and the recommendation is
  \<open>tech1\<close>, where the answers up to the terminal option give \<open>tech1: 1, tech2: 3\<close> and
  \<open>tech2\<close>.
\<close>

theorem trailing_answers_are_scored:
  "calculate mockTree
     [\<lparr>questionId = ''q1'', optionId = ''opt2''\<rparr>,
      \<lparr>questionId = ''q1'', optionId = ''opt1''\<rparr>,
      \<lparr>questionId = ''q1'', optionId = ''opt1''\<rparr>] =
     Inr \<lparr>rr_recommendation = ''tech1'', rr_scores = [(''tech1'', 7), (''tech2'', 5)],
          rr_result = mockResult1,
          rr_answers =
            [\<lparr>questionId = ''q1'', optionId = ''opt2''\<rparr>,
             \<lparr>questionId = ''q1'', optionId = ''opt1''\<rparr>,
             \<lparr>questionId = ''q1'', optionId = ''opt1''\<rparr>],
          rr_tieBreaker = None, rr_confidence = Medium\<rparr> \<and>
   calculate mockTree [\<lparr>questionId = ''q1'', optionId = ''opt2''\<rparr>] =
     Inr \<lparr>rr_recommendation = ''tech2'', rr_scores = [(''tech1'', 1), (''tech2'', 3)],
          rr_result = mockResult2,
          rr_answers = [\<lparr>questionId = ''q1'', optionId = ''opt2''\<rparr>],
          rr_tieBreaker = None, rr_confidence = Medium\<rparr>"
  by (simp add: eval_defs mockTree_def)

text \<open>
  C2, as stated, takes 0 for the second highest score only when no value competes. With the
  scores \<open>tech1: 3, tech2: -4\<close> the only competing value is \<open>-4\<close>, the difference would be
  7 and the label \<open>high\<close>; \<open>calculate\<close> returns \<open>medium\<close>.
\<close>

theorem confidence_negative_competitor_counterexample:
  "calculate negTree [\<lparr>questionId = ''q1'', optionId = ''opt1''\<rparr>] =
     Inr \<lparr>rr_recommendation = ''tech1'', rr_scores = [(''tech1'', 3), (''tech2'', - 4)],
          rr_result = mockResult1, rr_answers = [\<lparr>questionId = ''q1'', optionId = ''opt1''\<rparr>],
          rr_tieBreaker = None, rr_confidence = Medium\<rparr> \<and>
   classify (3 - claimedSecondHighest [(''tech1'', 3), (''tech2'', - 4)] 3) = High"
  by (simp add: calculate_def validateAnswerPath_def negTree_def questionMap_def
      entryQuestionId_def calculateScores_def scoreAnswer_def addPoints_def
      calculateConfidence_def classify_def claimedSecondHighest_def competingScores_def)

text \<open>
  C2 (amended). For every score mapping and every winner that is one of its keys, the
  confidence label is computed from \<open>difference = winnerScore - secondHighest\<close>, where
  \<open>secondHighest\<close> is the maximum of 0 and of the score values that are either not equal to
  \<open>winnerScore\<close>, or equal to it when at least two entries hold that value
  (\<open>Math.max(...otherScores, 0)\<close>: never below 0); \<open>difference >= 5\<close> gives \<open>high\<close>,
  \<open>2 <= difference < 5\<close> gives \<open>medium\<close>, anything else \<open>low\<close>.
\<close>

theorem calculateConfidence_second_highest_floored:
  assumes "map_of scores winner = Some winnerScore"
  shows "calculateConfidence scores winner =
         classify (winnerScore - flooredSecondHighest scores winnerScore)"
  by (rule calculateConfidence_floored [OF assms])

theorem calculateConfidence_second_highest_floored_witness:
  "map_of [(''tech1'', 3), (''tech2'', - 4)] ''tech1'' = Some (3::int) \<and>
   flooredSecondHighest [(''tech1'', 3), (''tech2'', - 4)] 3 = 0 \<and>
   calculateConfidence [(''tech1'', 3), (''tech2'', - 4)] ''tech1'' = Medium"
proof -
  have h: "map_of [(''tech1'', 3), (''tech2'', - 4)] ''tech1'' = Some (3::int)" by simp
  have f: "flooredSecondHighest [(''tech1'', 3), (''tech2'', - 4)] 3 = 0"
    by (simp add: flooredSecondHighest_def competingScores_def)
  from calculateConfidence_second_highest_floored [OF h] h f show ?thesis by (simp add: classify_def)
qed

text \<open>
  C3, as stated, has \<open>calculate\<close> succeed on every legal walk from the first question to a
  terminal option. A walk whose selected options score nothing is legal, and
  \<open>determineWinner\<close> throws \<open>NO_RECOMMENDATION\<close> on the empty score mapping. A walk from a
  first question whose id is the empty string is legal as well, but
  \<open>tree.questions[0]?.id || null\<close> is then \<open>null\<close>, and \<open>validateAnswerPath\<close> refuses the
  first answer.
\<close>

theorem calculate_legal_walk_without_scores_counterexample:
  "legalSteps unscoredTree (Some (q_id (hd (questions unscoredTree))))
     [\<lparr>questionId = ''q1'', optionId = ''opt1''\<rparr>] None \<and>
   calculate unscoredTree [\<lparr>questionId = ''q1'', optionId = ''opt1''\<rparr>] =
     Inl \<lparr>message = ''No technologies scored any points'', code = Some NO_RECOMMENDATION\<rparr> \<and>
   legalSteps unnamedEntryTree (Some (q_id (hd (questions unnamedEntryTree))))
     [\<lparr>questionId = [], optionId = ''opt1''\<rparr>] None \<and>
   calculate unnamedEntryTree [\<lparr>questionId = [], optionId = ''opt1''\<rparr>] =
     Inl \<lparr>message = ''Expected question null but got  at position 0'',
          code = Some INVALID_ANSWER_PATH\<rparr>"
  by (simp add: eval_defs unscoredTree_def unnamedEntryTree_def createError_def show_nullable_def
      show_nat.simps digit_def)

text \<open>
  C3 (amended). For every tree whose first question has a non-empty id and every non-empty
  answer list that forms a single legal walk from that question to a terminal option reached
  by the last answer, such that no outcome key of a selected option is a name that every
  object inherits (\<open>ownKeysOnly\<close>) and the absolute values of the selected options' points
  sum to at most \<open>2 ^ 53\<close> (\<open>exactPoints\<close>): path validation passes and every answer
  selects an option; whenever \<open>calculate\<close> succeeds, its scores map each outcome key to the
  sum, over exactly the selected options, of that key's contributions, and keys that no
  selected option mentions are absent; \<open>calculate\<close> succeeds when some selected option
  mentions a key and every mentioned key has a Result descriptor; when no selected option
  mentions a key it fails with \<open>NO_RECOMMENDATION\<close>. The two conditions on the keys and
  the points are those under which the association list with integer sums is what the
  engine holds in its \<open>scores\<close> object.
\<close>

theorem calculate_legal_walk_scores:
  assumes "answers \<noteq> []"
    and "questions tree = first # others" and "q_id first \<noteq> []"
    and "legalSteps tree (Some (q_id first)) answers None"
    and "ownKeysOnly (selectedOptions tree answers)"
    and "exactPoints (selectedOptions tree answers)"
  shows "validateAnswerPath tree answers = Inr () \<and>
         length (selectedOptions tree answers) = length answers \<and>
         (\<forall>r. calculate tree answers = Inr r \<longrightarrow>
              (\<forall>k. map_of (rr_scores r) k = summedScores (selectedOptions tree answers) k)) \<and>
         (scoredKeys (selectedOptions tree answers) \<noteq> {} \<and>
          (\<forall>k \<in> scoredKeys (selectedOptions tree answers). map_of (results tree) k \<noteq> None) \<longrightarrow>
            (\<exists>r. calculate tree answers = Inr r)) \<and>
         (scoredKeys (selectedOptions tree answers) = {} \<longrightarrow>
            calculate tree answers =
              Inl (createError NO_RECOMMENDATION ''No technologies scored any points''))"
proof -
  let ?sc = "calculateScores tree answers"
  have entry: "entryQuestionId tree = Some (q_id first)"
    using assms(2,3) by (simp add: entryQuestionId_def)
  have walk: "legalSteps tree (entryQuestionId tree) answers None"
    using assms(4) entry by simp
  have v: "validateAnswerPath tree answers = Inr ()"
    using validateAnswerPath_legalSteps [OF assms(1) walk] by simp
  have len: "length (selectedOptions tree answers) = length answers"
    by (rule legalSteps_all_select [OF walk])
  have sc: "\<forall>r. calculate tree answers = Inr r \<longrightarrow>
              (\<forall>k. map_of (rr_scores r) k = summedScores (selectedOptions tree answers) k)"
    using calculate_InrD [of tree answers] map_of_calculateScores [of tree answers] by fastforce
  have ok: "\<exists>r. calculate tree answers = Inr r"
    if ne: "scoredKeys (selectedOptions tree answers) \<noteq> {}"
    and doc: "\<forall>k \<in> scoredKeys (selectedOptions tree answers). map_of (results tree) k \<noteq> None"
  proof -
    from ne have "?sc \<noteq> []" using scoredKeys_fst [of tree answers] by auto
    from determineWinner_Inr [OF distinct_calculateScores this]
    obtain w tb where w: "determineWinner ?sc tree = Inr (w, tb)" "w \<in> set (tiedKeys ?sc)"
      by blast
    from w(2) have "w \<in> scoredKeys (selectedOptions tree answers)"
      using tiedKeys_subset [of ?sc] scoredKeys_fst [of tree answers] by auto
    with doc obtain res where "map_of (results tree) w = Some res" by auto
    with calculate_after_winner [OF v w(1)] show ?thesis by simp
  qed
  have none: "calculate tree answers =
              Inl (createError NO_RECOMMENDATION ''No technologies scored any points'')"
    if e: "scoredKeys (selectedOptions tree answers) = {}"
  proof -
    from e have "?sc = []" using scoredKeys_fst [of tree answers] by auto
    with v show ?thesis by (simp add: calculate_def)
  qed
  from v len sc ok none show ?thesis by blast
qed

theorem calculate_legal_walk_scores_witness:
  "[\<lparr>questionId = ''q1'', optionId = ''opt1''\<rparr>, \<lparr>questionId = ''q2'', optionId = ''opt3''\<rparr>] \<noteq> [] \<and>
   q_id (hd (questions mockTree)) = ''q1'' \<and>
   legalSteps mockTree (Some ''q1'')
     [\<lparr>questionId = ''q1'', optionId = ''opt1''\<rparr>, \<lparr>questionId = ''q2'', optionId = ''opt3''\<rparr>] None \<and>
   ownKeysOnly (selectedOptions mockTree
     [\<lparr>questionId = ''q1'', optionId = ''opt1''\<rparr>, \<lparr>questionId = ''q2'', optionId = ''opt3''\<rparr>]) \<and>
   exactPoints (selectedOptions mockTree
     [\<lparr>questionId = ''q1'', optionId = ''opt1''\<rparr>, \<lparr>questionId = ''q2'', optionId = ''opt3''\<rparr>]) \<and>
   scoredKeys (selectedOptions mockTree
     [\<lparr>questionId = ''q1'', optionId = ''opt1''\<rparr>, \<lparr>questionId = ''q2'', optionId = ''opt3''\<rparr>]) =
       {''tech1'', ''tech2''} \<and>
   map_of (results mockTree) ''tech1'' = Some mockResult1 \<and>
   map_of (results mockTree) ''tech2'' = Some mockResult2 \<and>
   (\<exists>r. calculate mockTree
     [\<lparr>questionId = ''q1'', optionId = ''opt1''\<rparr>, \<lparr>questionId = ''q2'', optionId = ''opt3''\<rparr>] = Inr r \<and>
     map_of (rr_scores r) ''tech1'' = Some 5 \<and> map_of (rr_scores r) ''tech2'' = Some 2 \<and>
     map_of (rr_scores r) ''tech3'' = None)"
proof -
  let ?answers = "[\<lparr>questionId = ''q1'', optionId = ''opt1''\<rparr>, \<lparr>questionId = ''q2'', optionId = ''opt3''\<rparr>]"
  let ?first = "\<lparr>q_id = ''q1'', q_text = ''Question 1?'',
          q_options =
            [\<lparr>o_id = ''opt1'', o_label = ''Option 1'', o_nextQuestionId = Some ''q2'',
               o_scores = [(''tech1'', 3), (''tech2'', 1)]\<rparr>,
             \<lparr>o_id = ''opt2'', o_label = ''Option 2'', o_nextQuestionId = None,
               o_scores = [(''tech1'', 1), (''tech2'', 3)]\<rparr>]\<rparr>"
  let ?others = "[\<lparr>q_id = ''q2'', q_text = ''Question 2?'',
          q_options =
            [\<lparr>o_id = ''opt3'', o_label = ''Option 3'', o_nextQuestionId = None,
               o_scores = [(''tech1'', 2), (''tech2'', 1)]\<rparr>]\<rparr>]"
  have h1: "?answers \<noteq> []" by simp
  have q: "questions mockTree = ?first # ?others" by (simp add: mockTree_def)
  have i: "q_id ?first \<noteq> []" by simp
  have h2: "legalSteps mockTree (Some (q_id ?first)) ?answers None"
    by (simp add: mockTree_def selects_def questionMap_def)
  have sel: "selectedOptions mockTree ?answers =
      [\<lparr>o_id = ''opt1'', o_label = ''Option 1'', o_nextQuestionId = Some ''q2'',
               o_scores = [(''tech1'', 3), (''tech2'', 1)]\<rparr>,
       \<lparr>o_id = ''opt3'', o_label = ''Option 3'', o_nextQuestionId = None,
               o_scores = [(''tech1'', 2), (''tech2'', 1)]\<rparr>]"
    by (simp add: mockTree_def selectedOptions_def selects_def questionMap_def)
  have k: "scoredKeys (selectedOptions mockTree ?answers) = {''tech1'', ''tech2''}"
    unfolding sel by (auto simp: scoredKeys_def)
  have own: "ownKeysOnly (selectedOptions mockTree ?answers)"
    unfolding ownKeysOnly_def k by (simp add: objectPrototypeNames_def)
  have ex: "exactPoints (selectedOptions mockTree ?answers)"
    unfolding sel by (simp add: exactPoints_def)
  have r1: "map_of (results mockTree) ''tech1'' = Some mockResult1"
    and r2: "map_of (results mockTree) ''tech2'' = Some mockResult2"
    by (simp_all add: mockTree_def)
  have s1: "summedScores (selectedOptions mockTree ?answers) ''tech1'' = Some 5"
    and s2: "summedScores (selectedOptions mockTree ?answers) ''tech2'' = Some 2"
    and s3: "summedScores (selectedOptions mockTree ?answers) ''tech3'' = None"
    unfolding summedScores_def k by (simp_all add: sel pointsFor_def)
  from calculate_legal_walk_scores [OF h1 q i h2 own ex] k r1 r2 obtain r where
    "calculate mockTree ?answers = Inr r"
    "\<forall>k. map_of (rr_scores r) k = summedScores (selectedOptions mockTree ?answers) k"
    by auto
  with h1 q h2 own ex k r1 r2 s1 s2 s3 show ?thesis by auto
qed

text \<open>
  C4. Whenever two or more outcome keys tie for the maximum score and every tied key has a
  Result descriptor, the winner is the least tied key in the ascending code-unit order of
  strings, the tie-break explanation is the sentence that lists all tied keys (so it is not
  empty), and the confidence is \<open>low\<close>; this is also what \<open>calculate\<close> returns when the
  answers pass validation and accumulate to these scores. For \<open>a: 5, b: 5\<close> the winner is
  \<open>a\<close>.
\<close>

theorem tie_break_lexicographic_low:
  assumes "distinct (map fst scores)"
    and "2 \<le> length (tiedKeys scores)"
    and "\<forall>k \<in> set (tiedKeys scores). map_of (results tree) k \<noteq> None"
  shows "\<exists>w. determineWinner scores tree =
           Inr (w, Some (''Tied with '' @ show_nat (length (tiedKeys scores)) @ '' options ('' @
                 join '', '' (tiedKeys scores) @ ''). '' @
                 ''Consider reviewing your requirements - both may be equally suitable.'')) \<and>
         w \<in> set (tiedKeys scores) \<and> (\<forall>k \<in> set (tiedKeys scores). w \<le> k) \<and>
         calculateConfidence scores w = Low \<and>
         (validateAnswerPath tree answers = Inr () \<and> calculateScores tree answers = scores \<longrightarrow>
            (\<exists>r. calculate tree answers = Inr r \<and> rr_recommendation r = w \<and>
                 rr_tieBreaker r =
                   Some (''Tied with '' @ show_nat (length (tiedKeys scores)) @ '' options ('' @
                     join '', '' (tiedKeys scores) @ ''). '' @
                     ''Consider reviewing your requirements - both may be equally suitable.'') \<and>
                 rr_confidence r = Low))"
proof -
  let ?expl = "''Tied with '' @ show_nat (length (tiedKeys scores)) @ '' options ('' @
                 join '', '' (tiedKeys scores) @ ''). '' @
                 ''Consider reviewing your requirements - both may be equally suitable.''"
  from assms(2) have ne: "scores \<noteq> []" by (auto simp: tiedKeys_def)
  from breakTie_all_documented [OF assms(2,3), of scores] obtain w where
    bt: "breakTie (tiedKeys scores) scores tree = (w, ?expl)"
    and w: "w \<in> set (tiedKeys scores)" "\<forall>k \<in> set (tiedKeys scores). w \<le> k"
    by blast
  obtain a b rest where t: "tiedKeys scores = a # b # rest"
    using assms(2) by (cases "tiedKeys scores"; cases "tl (tiedKeys scores)") auto
  have dw: "determineWinner scores tree = Inr (w, Some ?expl)"
    unfolding determineWinner_unfold [OF ne] using bt by (simp add: t)
  have low: "calculateConfidence scores w = Low"
    by (rule calculateConfidence_tie [OF assms(1,2) w(1)])
  have calc: "\<exists>r. calculate tree answers = Inr r \<and> rr_recommendation r = w \<and>
                 rr_tieBreaker r = Some ?expl \<and> rr_confidence r = Low"
    if v: "validateAnswerPath tree answers = Inr ()" and s: "calculateScores tree answers = scores"
  proof -
    from w(1) assms(3) obtain res where "map_of (results tree) w = Some res" by auto
    with calculate_after_winner [OF v, of w "Some ?expl"] dw low s show ?thesis by simp
  qed
  from dw w low calc show ?thesis by blast
qed

theorem tie_break_lexicographic_low_witness:
  "distinct (map fst [(''a'', 5::int), (''b'', 5)]) \<and>
   tiedKeys [(''a'', 5), (''b'', 5)] = [''a'', ''b''] \<and>
   map_of (results tieTree) ''a'' = Some mockResult1 \<and>
   map_of (results tieTree) ''b'' = Some mockResult2 \<and>
   determineWinner [(''a'', 5), (''b'', 5)] tieTree =
     Inr (''a'', Some ''Tied with 2 options (a, b). Consider reviewing your requirements - both may be equally suitable.'') \<and>
   calculateConfidence [(''a'', 5), (''b'', 5)] ''a'' = Low"
proof -
  let ?sc = "[(''a'', 5::int), (''b'', 5)]"
  have h1: "distinct (map fst ?sc)" by simp
  have t: "tiedKeys ?sc = [''a'', ''b'']" by (simp add: tiedKeys_def topScore_def)
  have h2: "2 \<le> length (tiedKeys ?sc)" unfolding t by simp
  have r1: "map_of (results tieTree) ''a'' = Some mockResult1"
    and r2: "map_of (results tieTree) ''b'' = Some mockResult2"
    by (simp_all add: tieTree_def)
  have h3: "\<forall>k \<in> set (tiedKeys ?sc). map_of (results tieTree) k \<noteq> None"
    unfolding t using r1 r2 by simp
  from tie_break_lexicographic_low [OF h1 h2 h3] obtain w where
    dw: "determineWinner ?sc tieTree =
       Inr (w, Some (''Tied with '' @ show_nat (length (tiedKeys ?sc)) @ '' options ('' @
                 join '', '' (tiedKeys ?sc) @ ''). '' @
                 ''Consider reviewing your requirements - both may be equally suitable.''))"
    and w: "w \<in> set (tiedKeys ?sc)" "\<forall>k \<in> set (tiedKeys ?sc). w \<le> k"
    and low: "calculateConfidence ?sc w = Low"
    by blast
  from w have "w = ''a''" unfolding t by auto
  with dw low h1 t r1 r2 show ?thesis
    by (simp add: show_nat.simps digit_def)
qed

text \<open>
  C5, as stated, has one call of \<open>validate\<close> report every structural problem of any tree.
  \<open>validate\<close> returns as soon as \<open>validateBasicStructure\<close> has pushed an error: for a tree
  without a title whose only question has no text and an option that points to a missing
  question, it reports the missing title alone, although \<open>validateQuestions\<close> and
  \<open>validateReferences\<close> find the other two problems. And for a tree whose question has no
  \<open>options\<close>, \<open>validateQuestions\<close> finds the problem, and \<open>validate\<close> then reports
  nothing: \<open>validateReferences\<close> throws on the same question.
\<close>

theorem validate_stops_after_basic_structure_counterexample:
  "validate (\<lambda>t. []) (Some untitledTree) =
     Inr \<lparr>vr_isValid = False,
          vr_errors = [\<lparr>v_type = ''error'', v_code = ''MISSING_TREE_TITLE'',
                        v_message = ''Tree must have a title'', v_location = None\<rparr>],
          vr_warnings = []\<rparr> \<and>
   validateQuestions untitledQuestions ([], []) =
     Inr ([\<lparr>v_type = ''error'', v_code = ''MISSING_QUESTION_TEXT'',
             v_message = ''Question missing text'', v_location = Some ''questions[0]''\<rparr>], []) \<and>
   validateReferences untitledQuestions (ObjectOf untitledResults) [] =
     Inr [\<lparr>v_type = ''error'', v_code = ''INVALID_REFERENCE'',
            v_message = ''nextQuestionId '' @ [CHR 0x22] @ ''q7'' @ [CHR 0x22] @ '' does not exist'',
            v_location = Some ''questions[0].options[0]''\<rparr>] \<and>
   validateQuestions optionlessQuestions ([], []) =
     Inr ([\<lparr>v_type = ''error'', v_code = ''MISSING_OPTIONS'',
             v_message = ''Question must have at least one option'',
             v_location = Some ''questions[0]''\<rparr>], []) \<and>
   validate (\<lambda>t. []) (Some optionlessTree) = Inl TypeError"
  by (simp add: validator_defs untitledTree_def untitledQuestions_def untitledResults_def
      optionlessTree_def optionlessQuestions_def jsonResult1_def Let_def)

text \<open>
  C5 (amended). For every input (a parsed JSON value or \<open>undefined\<close>): whenever \<open>validate\<close>
  returns a result, \<open>isValid\<close> is true exactly when the error list is empty, so warnings
  never make it false. When \<open>validateBasicStructure\<close> reports an error, \<open>validate\<close>
  returns these errors alone, with no warning, and runs no other stage. When it reports
  none, the later stages all run, in their order: unless one of them throws, \<open>validate\<close>
  returns the errors of \<open>validateQuestions\<close>, \<open>validateReferences\<close>,
  \<open>validateReachability\<close> and \<open>validateResults\<close>, each as it reports them on its own,
  in this order, and the warnings accumulated in the same way, followed by those of
  \<open>validateScoreBalance\<close>; the exception of a stage that throws leaves \<open>validate\<close>.
\<close>

theorem validate_accumulates_after_basic_structure:
  "(\<forall>r. validate sb tree = Inr r \<longrightarrow> vr_isValid r = (vr_errors r = [])) \<and>
   (validateBasicStructure tree [] \<noteq> [] \<longrightarrow>
      validate sb tree =
        Inr \<lparr>vr_isValid = False, vr_errors = validateBasicStructure tree [],
             vr_warnings = []\<rparr>) \<and>
   (validateBasicStructure tree [] = [] \<longrightarrow>
      (\<exists>qs rs. checkedTree tree = Some (qs, rs) \<and>
                validate sb tree = stagesAlone sb qs rs))"
proof (cases "validateBasicStructure tree [] = []")
  case False
  then show ?thesis by (auto simp: validate_def Let_def)
next
  case True
  from basic_ok_checked [OF True] obtain qs rs where c: "checkedTree tree = Some (qs, rs)"
    by blast
  have v: "validate sb tree = stagesAlone sb qs rs"
    by (rule validate_stagesAlone [OF True c])
  from True c v stagesAlone_isValid [of sb qs rs] show ?thesis by simp
qed

theorem validate_accumulates_after_basic_structure_witness:
  "validateBasicStructure (Some untitledTree) [] \<noteq> [] \<and>
   validate (\<lambda>t. []) (Some untitledTree) =
     Inr \<lparr>vr_isValid = False,
          vr_errors = [\<lparr>v_type = ''error'', v_code = ''MISSING_TREE_TITLE'',
                        v_message = ''Tree must have a title'', v_location = None\<rparr>],
          vr_warnings = []\<rparr> \<and>
   validateBasicStructure (Some brokenTree) [] = [] \<and>
   checkedTree (Some brokenTree) = Some (brokenQuestions, ObjectOf brokenResults) \<and>
   (\<exists>r. validate (\<lambda>t. []) (Some brokenTree) = Inr r \<and>
        map v_code (vr_errors r) =
          [''MISSING_QUESTION_TEXT'', ''INVALID_SCORE'', ''MISSING_SCORES'', ''INVALID_REFERENCE'',
           ''CIRCULAR_REFERENCE'', ''CIRCULAR_REFERENCE'', ''MISSING_RESULT_NAME''] \<and>
        map v_code (vr_warnings r) = [''EMPTY_SCORES''] \<and>
        vr_isValid r = False) \<and>
   validateBasicStructure (Some optionlessTree) [] = [] \<and>
   checkedTree (Some optionlessTree) = Some (optionlessQuestions, ObjectOf untitledResults) \<and>
   validate (\<lambda>t. []) (Some optionlessTree) = Inl TypeError"
proof -
  have b1: "validateBasicStructure (Some untitledTree) [] =
      [\<lparr>v_type = ''error'', v_code = ''MISSING_TREE_TITLE'',
         v_message = ''Tree must have a title'', v_location = None\<rparr>]"
    by (simp add: validateBasicStructure_def untitledTree_def untitledQuestions_def
        untitledResults_def mkError_def Let_def)
  have b2: "validateBasicStructure (Some brokenTree) [] = []"
    by (simp add: validateBasicStructure_def brokenTree_def brokenQuestions_def
        brokenResults_def mkError_def Let_def)
  have b3: "validateBasicStructure (Some optionlessTree) [] = []"
    by (simp add: validateBasicStructure_def optionlessTree_def optionlessQuestions_def
        untitledResults_def mkError_def Let_def)
  have c2: "checkedTree (Some brokenTree) = Some (brokenQuestions, ObjectOf brokenResults)"
    by (simp add: checkedTree_def brokenTree_def)
  have c3: "checkedTree (Some optionlessTree) = Some (optionlessQuestions, ObjectOf untitledResults)"
    by (simp add: checkedTree_def optionlessTree_def)
  have q: "validateQuestions brokenQuestions ([], []) =
      Inr ([mkError ''MISSING_QUESTION_TEXT'' ''Question missing text'' (Some ''questions[0]''),
            mkError ''INVALID_SCORE'' ''Score for tech1 must be a number''
              (Some ''questions[0].options[0].scores.tech1''),
            mkError ''MISSING_SCORES'' ''Option missing scores object''
              (Some ''questions[0].options[2]'')],
           [mkWarning ''EMPTY_SCORES'' ''Option has no scores defined''
              (Some ''questions[0].options[1]'')])"
    by (simp add: validator_defs brokenQuestions_def Let_def)
  have f: "map_sum id (map v_code)
             (validateReferences brokenQuestions (ObjectOf brokenResults) []) =
           Inr [''INVALID_REFERENCE'', ''CIRCULAR_REFERENCE'']"
    by (simp add: validator_defs brokenQuestions_def brokenResults_def Let_def)
  have r: "map_sum id (\<lambda>report. (map v_code (fst report), snd report))
             (validateReachability brokenQuestions ([], [])) =
           Inr ([''CIRCULAR_REFERENCE''], [])"
    by (simp add: validator_defs brokenQuestions_def Let_def)
  have s: "map_sum id (\<lambda>report. (map v_code (fst report), snd report))
             (validateResults (ObjectOf brokenResults) ([], [])) =
           Inr ([''MISSING_RESULT_NAME''], [])"
    by (simp add: validator_defs brokenResults_def Let_def)
  have w: "validateScoreBalance (\<lambda>t. []) brokenQuestions [] = Inr []"
    by (simp add: validator_defs brokenQuestions_def Let_def)
  have o: "stagesAlone (\<lambda>t. []) optionlessQuestions (ObjectOf untitledResults) = Inl TypeError"
    by (simp add: stagesAlone_def validator_defs optionlessQuestions_def untitledResults_def
        jsonResult1_def Let_def)
  note u = validate_accumulates_after_basic_structure [of "\<lambda>t. []" "Some untitledTree"]
  note v = validate_accumulates_after_basic_structure [of "\<lambda>t. []" "Some brokenTree"]
  note x = validate_accumulates_after_basic_structure [of "\<lambda>t. []" "Some optionlessTree"]
  from u b1 have u': "validate (\<lambda>t. []) (Some untitledTree) =
     Inr \<lparr>vr_isValid = False,
          vr_errors = [\<lparr>v_type = ''error'', v_code = ''MISSING_TREE_TITLE'',
                        v_message = ''Tree must have a title'', v_location = None\<rparr>],
          vr_warnings = []\<rparr>" by simp
  from v b2 c2 have v': "validate (\<lambda>t. []) (Some brokenTree) =
      stagesAlone (\<lambda>t. []) brokenQuestions (ObjectOf brokenResults)" by simp
  from x b3 c3 o have x': "validate (\<lambda>t. []) (Some optionlessTree) = Inl TypeError" by simp
  obtain fe where fe: "validateReferences brokenQuestions (ObjectOf brokenResults) [] = Inr fe"
      "map v_code fe = [''INVALID_REFERENCE'', ''CIRCULAR_REFERENCE'']"
    using f by (cases "validateReferences brokenQuestions (ObjectOf brokenResults) []") auto
  obtain re where re: "validateReachability brokenQuestions ([], []) = Inr (re, [])"
      "map v_code re = [''CIRCULAR_REFERENCE'']"
    using r by (cases "validateReachability brokenQuestions ([], [])") auto
  obtain se where se: "validateResults (ObjectOf brokenResults) ([], []) = Inr (se, [])"
      "map v_code se = [''MISSING_RESULT_NAME'']"
    using s by (cases "validateResults (ObjectOf brokenResults) ([], [])") auto
  have e: "\<exists>r. validate (\<lambda>t. []) (Some brokenTree) = Inr r \<and>
        map v_code (vr_errors r) =
          [''MISSING_QUESTION_TEXT'', ''INVALID_SCORE'', ''MISSING_SCORES'', ''INVALID_REFERENCE'',
           ''CIRCULAR_REFERENCE'', ''CIRCULAR_REFERENCE'', ''MISSING_RESULT_NAME''] \<and>
        map v_code (vr_warnings r) = [''EMPTY_SCORES''] \<and>
        vr_isValid r = False"
    unfolding v' stagesAlone_def q fe(1) re(1) se(1) w
    by (simp add: fe(2) re(2) se(2) mkError_def mkWarning_def)
  from b1 u' b2 c2 e b3 c3 x' show ?thesis by simp
qed

text \<open>
  C6. For every tree, \<open>calculate\<close> on the empty answer list fails with the typed error
  \<open>MISSING_ANSWERS\<close> (message "No answers provided"): the length test is the first
  statement of \<open>validateAnswerPath\<close>, so no other error can arise, whatever the tree.
\<close>

theorem calculate_empty_answers_MissingAnswers:
  "calculate tree [] = Inl (createError MISSING_ANSWERS ''No answers provided'')"
  by (simp add: calculate_def validateAnswerPath_def)

theorem calculate_empty_answers_witness:
  "calculate mockTree [] = Inl \<lparr>message = ''No answers provided'', code = Some MISSING_ANSWERS\<rparr>"
  using calculate_empty_answers_MissingAnswers [of mockTree]
  by (simp add: createError_def)

text \<open>
  C7. For every tree and every non-empty answer list in which each answer in order names the
  expected question and an existing option, and the last selected option's
  \<open>nextQuestionId\<close> is not \<open>null\<close>, \<open>calculate\<close> fails with the typed error
  \<open>INVALID_ANSWER_PATH\<close> and the message "Answer path did not reach a valid end node".
\<close>

theorem calculate_unfinished_walk_InvalidAnswerPath:
  assumes "answers \<noteq> []" and "legalSteps tree (entryQuestionId tree) answers (Some next)"
  shows "calculate tree answers =
    Inl (createError INVALID_ANSWER_PATH ''Answer path did not reach a valid end node'')"
  using validateAnswerPath_legalSteps [OF assms] by (simp add: calculate_def)

theorem calculate_unfinished_walk_witness:
  "[\<lparr>questionId = ''q1'', optionId = ''opt1''\<rparr>] \<noteq> [] \<and>
   legalSteps mockTree (entryQuestionId mockTree) [\<lparr>questionId = ''q1'', optionId = ''opt1''\<rparr>] (Some ''q2'') \<and>
   calculate mockTree [\<lparr>questionId = ''q1'', optionId = ''opt1''\<rparr>] =
     Inl \<lparr>message = ''Answer path did not reach a valid end node'', code = Some INVALID_ANSWER_PATH\<rparr>"
proof -
  let ?answers = "[\<lparr>questionId = ''q1'', optionId = ''opt1''\<rparr>]"
  have h1: "?answers \<noteq> []" by simp
  have h2: "legalSteps mockTree (entryQuestionId mockTree) ?answers (Some ''q2'')"
    by (simp add: mockTree_def entryQuestionId_def selects_def questionMap_def)
  from calculate_unfinished_walk_InvalidAnswerPath [OF h1 h2] h1 h2 show ?thesis by (simp add: createError_def)
qed

text \<open>
  C9. When the answers pass validation and the determined winner has no entry in
  \<open>tree.results\<close>, \<open>calculate\<close> throws a plain error "Result not found for technology: ..."
  that carries no error code. A winner chosen by the documentation-completeness tie-break
  (explanation "Selected based on available documentation and guidance") always has a
  descriptor. The failure is reached by an outright winner and by a lexicographic winner:
  in \<open>undocumentedTree\<close>, \<open>opt1\<close> makes \<open>tech3\<close> win outright, \<open>opt2\<close> makes \<open>tech3\<close>
  and \<open>tech4\<close> tie with no descriptor for either.
\<close>

theorem result_not_found_is_untyped:
  "(validateAnswerPath tree answers = Inr () \<and>
    determineWinner (calculateScores tree answers) tree = Inr (w, tb) \<and>
    map_of (results tree) w = None \<longrightarrow>
      calculate tree answers =
        Inl \<lparr>message = ''Result not found for technology: '' @ w, code = None\<rparr>) \<and>
   (determineWinner scores tree' =
      Inr (w', Some ''Selected based on available documentation and guidance'') \<longrightarrow>
      map_of (results tree') w' \<noteq> None) \<and>
   determineWinner (calculateScores undocumentedTree [\<lparr>questionId = ''q1'', optionId = ''opt1''\<rparr>])
     undocumentedTree = Inr (''tech3'', None) \<and>
   calculate undocumentedTree [\<lparr>questionId = ''q1'', optionId = ''opt1''\<rparr>] =
     Inl \<lparr>message = ''Result not found for technology: tech3'', code = None\<rparr> \<and>
   determineWinner (calculateScores undocumentedTree [\<lparr>questionId = ''q1'', optionId = ''opt2''\<rparr>])
     undocumentedTree =
       Inr (''tech3'', Some ''Tied with 2 options (tech3, tech4). Consider reviewing your requirements - both may be equally suitable.'') \<and>
   calculate undocumentedTree [\<lparr>questionId = ''q1'', optionId = ''opt2''\<rparr>] =
     Inl \<lparr>message = ''Result not found for technology: tech3'', code = None\<rparr>"
proof -
  have a: "validateAnswerPath tree answers = Inr () \<and>
    determineWinner (calculateScores tree answers) tree = Inr (w, tb) \<and>
    map_of (results tree) w = None \<longrightarrow>
      calculate tree answers =
        Inl \<lparr>message = ''Result not found for technology: '' @ w, code = None\<rparr>"
    using calculate_after_winner [of tree answers w tb] by (simp add: plainError_def)
  have b: "determineWinner scores tree' =
      Inr (w', Some ''Selected based on available documentation and guidance'') \<longrightarrow>
      map_of (results tree') w' \<noteq> None"
    using determineWinner_documentation by blast
  have c1: "determineWinner (calculateScores undocumentedTree [\<lparr>questionId = ''q1'', optionId = ''opt1''\<rparr>])
     undocumentedTree = Inr (''tech3'', None)"
    by (simp add: eval_defs undocumentedTree_def)
  have c2: "calculate undocumentedTree [\<lparr>questionId = ''q1'', optionId = ''opt1''\<rparr>] =
     Inl \<lparr>message = ''Result not found for technology: tech3'', code = None\<rparr>"
    by (simp add: eval_defs undocumentedTree_def plainError_def)
  have c3: "determineWinner (calculateScores undocumentedTree [\<lparr>questionId = ''q1'', optionId = ''opt2''\<rparr>])
     undocumentedTree =
       Inr (''tech3'', Some ''Tied with 2 options (tech3, tech4). Consider reviewing your requirements - both may be equally suitable.'')"
    by (simp add: eval_defs undocumentedTree_def)
  have c4: "calculate undocumentedTree [\<lparr>questionId = ''q1'', optionId = ''opt2''\<rparr>] =
     Inl \<lparr>message = ''Result not found for technology: tech3'', code = None\<rparr>"
    by (simp add: eval_defs undocumentedTree_def plainError_def)
  from a b c1 c2 c3 c4 show ?thesis by blast
qed

theorem result_not_found_is_untyped_witness:
  "validateAnswerPath undocumentedTree [\<lparr>questionId = ''q1'', optionId = ''opt1''\<rparr>] = Inr () \<and>
   determineWinner (calculateScores undocumentedTree [\<lparr>questionId = ''q1'', optionId = ''opt1''\<rparr>])
     undocumentedTree = Inr (''tech3'', None) \<and>
   map_of (results undocumentedTree) ''tech3'' = None \<and>
   calculate undocumentedTree [\<lparr>questionId = ''q1'', optionId = ''opt1''\<rparr>] =
     Inl \<lparr>message = ''Result not found for technology: tech3'', code = None\<rparr> \<and>
   determineWinner [(''tech0'', 4), (''tech1'', 4)] documentedTieTree =
     Inr (''tech1'', Some ''Selected based on available documentation and guidance'') \<and>
   map_of (results documentedTieTree) ''tech1'' \<noteq> None"
proof -
  let ?answers = "[\<lparr>questionId = ''q1'', optionId = ''opt1''\<rparr>]"
  have v: "validateAnswerPath undocumentedTree ?answers = Inr ()"
    by (simp add: eval_defs undocumentedTree_def)
  have m: "map_of (results undocumentedTree) ''tech3'' = None"
    by (simp add: undocumentedTree_def)
  have d: "determineWinner [(''tech0'', 4), (''tech1'', 4)] documentedTieTree =
     Inr (''tech1'', Some ''Selected based on available documentation and guidance'')"
    by (simp add: eval_defs documentedTieTree_def)
  note t = result_not_found_is_untyped [of undocumentedTree ?answers "''tech3''" None "[(''tech0'', 4), (''tech1'', 4)]"
      documentedTieTree "''tech1''"]
  from t v m d show ?thesis by simp
qed



end
